theory Spec2Isabelle
  imports Complex_Main "HOL-Library.Word"
begin

section \<open>Data model of the output transport\<close>

text \<open>
  A shallow embedding of \<^verbatim>\<open>BaseOutputTransport\<close>
  (\<^verbatim>\<open>src/pipecat/transports/base_output.py\<close>). Bytes are 8-bit words, Python
  integers are \<open>int\<close>, the object's attributes are the fields of the record
  \<open>transport\<close>, and every method takes the object and returns it updated. Wall-clock
  times and durations, which the source holds in floats, are the real numbers those
  floats denote. Comparing floats and taking the absolute value are exact; adding,
  subtracting, multiplying and dividing round, so these four operations are parameters
  of the model (the record \<open>float_ops\<close>) and nothing is assumed about them.
\<close>

type_synonym byte = "8 word"

text \<open>
  The exceptions the model raises. \<open>CancelledError\<close> and \<open>KeyboardInterrupt\<close> derive
  from \<^verbatim>\<open>BaseException\<close> only; the others are instances of \<^verbatim>\<open>Exception\<close>.
\<close>

datatype py_error =
  AttributeError | ZeroDivisionError | HookError | CancelledError | KeyboardInterrupt

definition is_exception :: "py_error \<Rightarrow> bool" where
  "is_exception e = (e \<noteq> CancelledError \<and> e \<noteq> KeyboardInterrupt)"

datatype direction = DOWNSTREAM | UPSTREAM

datatype audio_class = OutputAudioRawFrame | TTSAudioRawFrame

record raw_image =
  image_bytes :: "byte list"
  image_size :: "int \<times> int"
  image_format :: string

text \<open>
  The frame classes are declared in \<^verbatim>\<open>pipecat.frames.frames\<close>; the constructors
  below are the classes this file tests with \<^verbatim>\<open>isinstance\<close>, with the fields it
  reads. \<open>OutputAudio c a r n\<close> is an instance of class \<open>c\<close> holding audio \<open>a\<close> at
  sample rate \<open>r\<close> with \<open>n\<close> channels (a \<open>TTSAudioRawFrame\<close> is an
  \<open>OutputAudioRawFrame\<close> too); \<open>SystemFrame\<close> and \<open>DataFrame\<close> stand for any other
  system frame and any other frame.
\<close>

datatype frame_body =
    StartFrame int
  | CancelFrame
  | StartInterruptionFrame
  | StopInterruptionFrame
  | TransportMessageUrgentFrame
  | BotStartedSpeakingFrame
  | BotStoppedSpeakingFrame
  | BotSpeakingFrame
  | SystemFrame
  | EndFrame
  | MixerControlFrame
  | OutputAudio audio_class "byte list" int int
  | OutputImageRawFrame raw_image
  | SpriteFrame "raw_image list"
  | TransportMessageFrame
  | DataFrame

record frame =
  frame_id :: int
  pts :: "int option"
  body :: frame_body

definition is_system :: "frame \<Rightarrow> bool" where
  "is_system f = (case body f of
       StartFrame r \<Rightarrow> True | CancelFrame \<Rightarrow> True | StartInterruptionFrame \<Rightarrow> True
     | StopInterruptionFrame \<Rightarrow> True | TransportMessageUrgentFrame \<Rightarrow> True
     | BotStartedSpeakingFrame \<Rightarrow> True | BotStoppedSpeakingFrame \<Rightarrow> True
     | BotSpeakingFrame \<Rightarrow> True | SystemFrame \<Rightarrow> True | _ \<Rightarrow> False)"

definition is_audio :: "frame \<Rightarrow> bool" where
  "is_audio f = (case body f of OutputAudio cls a r n \<Rightarrow> True | _ \<Rightarrow> False)"

definition is_tts :: "frame \<Rightarrow> bool" where
  "is_tts f = (case body f of OutputAudio cls a r n \<Rightarrow> cls = TTSAudioRawFrame | _ \<Rightarrow> False)"

definition is_image :: "frame \<Rightarrow> bool" where
  "is_image f = (case body f of OutputImageRawFrame i \<Rightarrow> True | SpriteFrame is \<Rightarrow> True
     | _ \<Rightarrow> False)"

text \<open>The \<^verbatim>\<open>audio\<close> attribute of a frame.\<close>

definition audio_of :: "frame \<Rightarrow> byte list" where
  "audio_of f = (case body f of OutputAudio cls a r n \<Rightarrow> a | _ \<Rightarrow> [])"

record transport_params =
  audio_out_enabled :: bool
  audio_out_sample_rate :: "int option"
  audio_out_channels :: int
  audio_out_10ms_chunks :: int
  audio_out_mixer :: bool
  video_out_enabled :: bool
  video_out_is_live :: bool
  video_out_width :: int
  video_out_height :: int
  video_out_framerate :: int

text \<open>
  The external collaborators and the write hooks a concrete transport overrides. A hook
  returns \<open>None\<close> when it returns normally and \<open>Some e\<close> when it raises \<open>e\<close>.
\<close>

record hooks =
  resample :: "byte list \<Rightarrow> int \<Rightarrow> int \<Rightarrow> byte list"
  mix :: "byte list \<Rightarrow> byte list"
  resize :: "raw_image \<Rightarrow> int \<times> int \<Rightarrow> raw_image"
  send_message :: "frame \<Rightarrow> py_error option"
  write_raw_audio_frames :: "byte list \<Rightarrow> py_error option"
  write_raw_video_frame :: "raw_image \<Rightarrow> py_error option"

text \<open>
  Float arithmetic: \<open>fadd\<close>, \<open>fsub\<close>, \<open>fmul\<close> and \<open>fdiv\<close> stand for \<^verbatim>\<open>+\<close>,
  \<^verbatim>\<open>-\<close>, \<^verbatim>\<open>*\<close> and \<^verbatim>\<open>/\<close> on floats, an integer operand being converted
  first.
\<close>

record float_ops =
  fadd :: "real \<Rightarrow> real \<Rightarrow> real"
  fsub :: "real \<Rightarrow> real \<Rightarrow> real"
  fmul :: "real \<Rightarrow> real \<Rightarrow> real"
  fdiv :: "real \<Rightarrow> real \<Rightarrow> real"

text \<open>
  What the video task does, in the order it does it: a reading of \<^verbatim>\<open>time.time()\<close>,
  an \<^verbatim>\<open>asyncio.sleep\<close>, a call of the video write hook.
\<close>

datatype video_event = TimeRead real | Slept real | Wrote raw_image

text \<open>
  A task handle is a number; \<open>None\<close> is Python's \<^verbatim>\<open>None\<close>. The three queues are
  attributes that exist only once the task that owns them was created, so they are
  optional too. The scheduled queue holds the tuples \<open>(pts, id, frame)\<close>. The fields
  from \<open>mixer_started\<close> on are not attributes of the object: they record what it did
  (\<open>pushed\<close> the \<^verbatim>\<open>push_frame\<close> calls, \<open>cancelled_tasks\<close> the \<^verbatim>\<open>cancel_task\<close>
  calls, \<open>logged\<close> the exceptions logged, \<open>clock_sleeps\<close> the \<^verbatim>\<open>asyncio.sleep\<close>
  calls of the scheduled task, \<open>video_log\<close> the events of the video task, the others
  the calls of the hooks) and number the frames and tasks it creates.
\<close>

record transport =
  params :: transport_params
  interruptions_allowed :: bool
  sink_task :: "nat option"
  sink_clock_task :: "nat option"
  video_out_task :: "nat option"
  sink_queue :: "frame list option"
  sink_clock_queue :: "(int \<times> int \<times> frame) list option"
  video_out_queue :: "frame list option"
  video_images :: "raw_image list option"
  sample_rate :: int
  audio_chunk_size :: int
  audio_buffer :: "byte list"
  bot_speaking :: bool
  video_out_start_time :: "real option"
  video_out_frame_index :: int
  video_out_frame_duration :: real
  video_out_frame_reset :: real
  mixer_started :: "int option"
  mixer_frames :: "frame list"
  pushed :: "(frame \<times> direction) list"
  sent_messages :: "frame list"
  written_audio :: "byte list list"
  video_log :: "video_event list"
  cancelled_tasks :: "nat list"
  logged :: "py_error list"
  clock_sleeps :: "int list"
  id_counter :: int
  task_counter :: nat

definition init :: "transport_params \<Rightarrow> transport" where
  "init p = \<lparr>params = p, interruptions_allowed = False,
     sink_task = None, sink_clock_task = None, video_out_task = None,
     sink_queue = None, sink_clock_queue = None, video_out_queue = None,
     video_images = None, sample_rate = 0, audio_chunk_size = 0, audio_buffer = [],
     bot_speaking = False, video_out_start_time = None, video_out_frame_index = 0,
     video_out_frame_duration = 0, video_out_frame_reset = 0,
     mixer_started = None, mixer_frames = [], pushed = [], sent_messages = [],
     written_audio = [], video_log = [], cancelled_tasks = [], logged = [],
     clock_sleeps = [], id_counter = 0, task_counter = 0\<rparr>"

subsection \<open>Python primitives\<close>

text \<open>\<^verbatim>\<open>a or b\<close> on an optional integer: \<^verbatim>\<open>None\<close> and \<open>0\<close> are falsy.\<close>

definition py_or :: "int option \<Rightarrow> int \<Rightarrow> int" where
  "py_or a b = (case a of None \<Rightarrow> b | Some x \<Rightarrow> if x = 0 then b else x)"

text \<open>
  \<^verbatim>\<open>int(a / b)\<close>: true division followed by truncation towards zero. The quotient
  is a float; it truncates to the exact truncated quotient as long as the operands are
  below \<open>2 ^ 47\<close> in magnitude, which is the range the theorems below assume where it
  matters. Division by zero raises.
\<close>

definition int_truediv :: "int \<Rightarrow> int \<Rightarrow> py_error + int" where
  "int_truediv a b =
     (if b = 0 then Inl ZeroDivisionError else Inr (sgn a * sgn b * (\<bar>a\<bar> div \<bar>b\<bar>)))"

text \<open>The slices \<^verbatim>\<open>xs[:n]\<close> and \<^verbatim>\<open>xs[n:]\<close>; a negative \<open>n\<close> counts from the end.\<close>

definition slice_to :: "'a list \<Rightarrow> int \<Rightarrow> 'a list" where
  "slice_to xs n = (if 0 \<le> n then take (nat n) xs else take (nat (int (length xs) + n)) xs)"

definition slice_from :: "'a list \<Rightarrow> int \<Rightarrow> 'a list" where
  "slice_from xs n = (if 0 \<le> n then drop (nat n) xs else drop (nat (int (length xs) + n)) xs)"

text \<open>\<^verbatim>\<open>sys.maxsize\<close> on a 64-bit platform.\<close>

definition maxsize :: int where
  "maxsize = 2 ^ 63 - 1"

text \<open>A frame the transport constructs: it takes the next identifier and has no timestamp.\<close>

definition new_frame :: "frame_body \<Rightarrow> transport \<Rightarrow> frame \<times> transport" where
  "new_frame b st =
     (\<lparr>frame_id = id_counter st, pts = None, body = b\<rparr>, st\<lparr>id_counter := id_counter st + 1\<rparr>)"

definition push_frame :: "frame \<Rightarrow> direction \<Rightarrow> transport \<Rightarrow> transport" where
  "push_frame f d st = st\<lparr>pushed := pushed st @ [(f, d)]\<rparr>"

subsection \<open>Tasks\<close>

definition create_video_task :: "transport \<Rightarrow> transport" where
  "create_video_task st =
     (if video_out_task st = None \<and> video_out_enabled (params st)
      then st\<lparr>video_out_queue := Some [], video_out_task := Some (task_counter st),
              task_counter := Suc (task_counter st)\<rparr>
      else st)"

definition cancel_video_task :: "transport \<Rightarrow> transport" where
  "cancel_video_task st =
     (case video_out_task st of
        Some t \<Rightarrow> if video_out_enabled (params st)
                  then st\<lparr>cancelled_tasks := cancelled_tasks st @ [t], video_out_task := None\<rparr>
                  else st
      | None \<Rightarrow> st)"

definition create_sink_tasks :: "transport \<Rightarrow> transport" where
  "create_sink_tasks st =
     (let st1 = (if sink_task st = None
                 then st\<lparr>sink_queue := Some [], sink_task := Some (task_counter st),
                         task_counter := Suc (task_counter st)\<rparr>
                 else st)
      in if sink_clock_task st1 = None
         then st1\<lparr>sink_clock_queue := Some [], sink_clock_task := Some (task_counter st1),
                  task_counter := Suc (task_counter st1)\<rparr>
         else st1)"

definition cancel_sink_tasks :: "transport \<Rightarrow> transport" where
  "cancel_sink_tasks st =
     (let st1 = (case sink_task st of
                   Some t \<Rightarrow> st\<lparr>cancelled_tasks := cancelled_tasks st @ [t], sink_task := None\<rparr>
                 | None \<Rightarrow> st)
      in case sink_clock_task st1 of
           Some t \<Rightarrow> st1\<lparr>cancelled_tasks := cancelled_tasks st1 @ [t], sink_clock_task := None\<rparr>
         | None \<Rightarrow> st1)"

subsection \<open>start, stop, cancel\<close>

definition start :: "int \<Rightarrow> transport \<Rightarrow> py_error + transport" where
  "start frame_rate st =
     (let sr = py_or (audio_out_sample_rate (params st)) frame_rate in
      case int_truediv sr 100 of
        Inl e \<Rightarrow> Inl e
      | Inr q \<Rightarrow>
          let audio_bytes_10ms = q * audio_out_channels (params st) * 2;
              st1 = st\<lparr>sample_rate := sr,
                       audio_chunk_size := audio_bytes_10ms * audio_out_10ms_chunks (params st)\<rparr>;
              st2 = (if audio_out_mixer (params st) then st1\<lparr>mixer_started := Some sr\<rparr> else st1)
          in Inr (create_sink_tasks (create_video_task st2)))"

text \<open>
  \<^verbatim>\<open>stop\<close> suspends until both sink tasks have ended. \<open>stop_enqueue\<close> is the method
  up to that point (the two \<^verbatim>\<open>put\<close> calls) and \<open>stop_finish\<close> what it does once
  the tasks have ended.
\<close>

definition stop_enqueue :: "frame \<Rightarrow> transport \<Rightarrow> py_error + transport" where
  "stop_enqueue f st =
     (case sink_clock_queue st of
        None \<Rightarrow> Inl AttributeError
      | Some cq \<Rightarrow>
          (case sink_queue st of
             None \<Rightarrow> Inl AttributeError
           | Some q \<Rightarrow> Inr (st\<lparr>sink_clock_queue := Some (cq @ [(maxsize, frame_id f, f)]),
                               sink_queue := Some (q @ [f])\<rparr>)))"

definition stop_finish :: "transport \<Rightarrow> transport" where
  "stop_finish st = cancel_video_task st"

definition cancel :: "transport \<Rightarrow> transport" where
  "cancel st = cancel_video_task (cancel_sink_tasks st)"

subsection \<open>Speaking state\<close>

definition bot_started_speaking :: "transport \<Rightarrow> transport" where
  "bot_started_speaking st =
     (if \<not> bot_speaking st then
        (let (f1, st1) = new_frame BotStartedSpeakingFrame st;
             st2 = push_frame f1 DOWNSTREAM st1;
             (f2, st3) = new_frame BotStartedSpeakingFrame st2;
             st4 = push_frame f2 UPSTREAM st3
         in st4\<lparr>bot_speaking := True\<rparr>)
      else st)"

definition bot_stopped_speaking :: "transport \<Rightarrow> transport" where
  "bot_stopped_speaking st =
     (if bot_speaking st then
        (let (f1, st1) = new_frame BotStoppedSpeakingFrame st;
             st2 = push_frame f1 DOWNSTREAM st1;
             (f2, st3) = new_frame BotStoppedSpeakingFrame st2;
             st4 = push_frame f2 UPSTREAM st3
         in st4\<lparr>bot_speaking := False, audio_buffer := []\<rparr>)
      else st)"

subsection \<open>Interruptions\<close>

definition handle_interruptions :: "frame \<Rightarrow> transport \<Rightarrow> transport" where
  "handle_interruptions f st =
     (if \<not> interruptions_allowed st then st
      else if body f = StartInterruptionFrame then
        bot_stopped_speaking
          (create_sink_tasks (create_video_task (cancel_video_task (cancel_sink_tasks st))))
      else st)"

subsection \<open>The audio chunker\<close>

text \<open>
  The \<^verbatim>\<open>while\<close> loop of \<^verbatim>\<open>_handle_audio\<close>. It does not end when the chunk size
  is not positive, so it is a partial function: \<open>None\<close> is "never returns". Inside,
  \<open>Inl\<close> is a raised exception (the queue attribute does not exist before Start).
\<close>

partial_function (option) chunk_loop ::
  "audio_class \<Rightarrow> int \<Rightarrow> transport \<Rightarrow> (py_error + transport) option" where
  "chunk_loop cls nch st =
     (if audio_chunk_size st \<le> int (length (audio_buffer st)) then
        (let (chunk, st1) = new_frame (OutputAudio cls
                 (slice_to (audio_buffer st) (audio_chunk_size st)) (sample_rate st) nch) st
         in case sink_queue st1 of
              None \<Rightarrow> Some (Inl AttributeError)
            | Some q \<Rightarrow>
                chunk_loop cls nch
                  (st1\<lparr>sink_queue := Some (q @ [chunk]),
                       audio_buffer := slice_from (audio_buffer st1) (audio_chunk_size st1)\<rparr>))
      else Some (Inr st))"

text \<open>
  \<^verbatim>\<open>_handle_audio\<close>; the resampler is external and passed in. A frame that is not
  an audio frame never reaches this method, and is left alone here.
\<close>

definition handle_audio ::
  "(byte list \<Rightarrow> int \<Rightarrow> int \<Rightarrow> byte list) \<Rightarrow> frame \<Rightarrow> transport
     \<Rightarrow> (py_error + transport) option" where
  "handle_audio rs f st =
     (if \<not> audio_out_enabled (params st) then Some (Inr st)
      else case body f of
        OutputAudio cls a r nch \<Rightarrow>
          chunk_loop cls nch
            (st\<lparr>audio_buffer := audio_buffer st @ rs a r (sample_rate st)\<rparr>)
      | _ \<Rightarrow> Some (Inr st))"

text \<open>A run of \<^verbatim>\<open>_handle_audio\<close> calls, one per frame, stopping at the first exception.\<close>

fun handle_audio_seq ::
  "(byte list \<Rightarrow> int \<Rightarrow> int \<Rightarrow> byte list) \<Rightarrow> frame list \<Rightarrow> transport
     \<Rightarrow> (py_error + transport) option" where
  "handle_audio_seq rs [] st = Some (Inr st)"
| "handle_audio_seq rs (f # fs) st =
     (case handle_audio rs f st of
        None \<Rightarrow> None
      | Some (Inl e) \<Rightarrow> Some (Inl e)
      | Some (Inr st1) \<Rightarrow> handle_audio_seq rs fs st1)"

text \<open>What the resampler makes of a frame's audio.\<close>

definition resampled ::
  "(byte list \<Rightarrow> int \<Rightarrow> int \<Rightarrow> byte list) \<Rightarrow> int \<Rightarrow> frame \<Rightarrow> byte list" where
  "resampled rs sr f = (case body f of OutputAudio cls a r n \<Rightarrow> rs a r sr | _ \<Rightarrow> [])"

subsection \<open>Images\<close>

definition handle_image :: "frame \<Rightarrow> transport \<Rightarrow> py_error + transport" where
  "handle_image f st =
     (if \<not> video_out_enabled (params st) then Inr st
      else if video_out_is_live (params st) then
        (case video_out_queue st of
           None \<Rightarrow> Inl AttributeError
         | Some q \<Rightarrow> Inr (st\<lparr>video_out_queue := Some (q @ [f])\<rparr>))
      else
        (case sink_queue st of
           None \<Rightarrow> Inl AttributeError
         | Some q \<Rightarrow> Inr (st\<lparr>sink_queue := Some (q @ [f])\<rparr>)))"

subsection \<open>The frame router\<close>

text \<open>
  \<^verbatim>\<open>process_frame\<close>, one branch of the model per branch of the source, in its
  order. The call of the base class (\<^verbatim>\<open>super().process_frame\<close>) is outside this
  file and not modelled. The End branch suspends inside \<^verbatim>\<open>stop\<close>: the model
  returns the state at that point, and \<open>process_frame_end_resume\<close> is the rest of the
  branch, run once both sink tasks have ended.
\<close>

definition process_frame ::
  "hooks \<Rightarrow> frame \<Rightarrow> direction \<Rightarrow> transport \<Rightarrow> (py_error + transport) option" where
  "process_frame h f d st =
     (case body f of
        StartFrame r \<Rightarrow> Some (start r (push_frame f d st))
      | CancelFrame \<Rightarrow> Some (Inr (push_frame f d (cancel st)))
      | StartInterruptionFrame \<Rightarrow> Some (Inr (handle_interruptions f (push_frame f d st)))
      | StopInterruptionFrame \<Rightarrow> Some (Inr (handle_interruptions f (push_frame f d st)))
      | TransportMessageUrgentFrame \<Rightarrow>
          (case send_message h f of
             None \<Rightarrow> Some (Inr (st\<lparr>sent_messages := sent_messages st @ [f]\<rparr>))
           | Some e \<Rightarrow> Some (Inl e))
      | _ \<Rightarrow>
          if is_system f then Some (Inr (push_frame f d st))
          else if body f = EndFrame then Some (stop_enqueue f st)
          else if body f = MixerControlFrame \<and> audio_out_mixer (params st)
            then Some (Inr (st\<lparr>mixer_frames := mixer_frames st @ [f]\<rparr>))
          else if is_audio f then handle_audio (resample h) f st
          else if is_image f then Some (handle_image f st)
          else if pts f \<noteq> None \<and> pts f \<noteq> Some 0 then
            (case sink_clock_queue st of
               None \<Rightarrow> Some (Inl AttributeError)
             | Some q \<Rightarrow> Some (Inr (st\<lparr>sink_clock_queue :=
                                        Some (q @ [(the (pts f), frame_id f, f)])\<rparr>)))
          else if d = UPSTREAM then Some (Inr (push_frame f d st))
          else
            (case sink_queue st of
               None \<Rightarrow> Some (Inl AttributeError)
             | Some q \<Rightarrow> Some (Inr (st\<lparr>sink_queue := Some (q @ [f])\<rparr>))))"

definition process_frame_end_resume :: "frame \<Rightarrow> direction \<Rightarrow> transport \<Rightarrow> transport" where
  "process_frame_end_resume f d st = push_frame f d (stop_finish st)"

subsection \<open>Sink tasks\<close>

datatype task_status = Running | Finished | Cancelled | Failed py_error

definition sink_frame_handler :: "hooks \<Rightarrow> frame \<Rightarrow> transport \<Rightarrow> py_error + transport" where
  "sink_frame_handler h f st =
     (case body f of
        OutputImageRawFrame img \<Rightarrow> Inr (st\<lparr>video_images := Some [img]\<rparr>)
      | SpriteFrame imgs \<Rightarrow> Inr (st\<lparr>video_images := Some imgs\<rparr>)
      | TransportMessageFrame \<Rightarrow>
          (case send_message h f of
             None \<Rightarrow> Inr (st\<lparr>sent_messages := sent_messages st @ [f]\<rparr>)
           | Some e \<Rightarrow> Inl e)
      | _ \<Rightarrow> Inr st)"

text \<open>
  \<^verbatim>\<open>asyncio.PriorityQueue\<close> hands out the least tuple first. Tuples compare by
  timestamp, then by frame identifier; the frames themselves are never compared, since
  identifiers differ. The queue is the list of the tuples put and not yet taken.
\<close>

definition entry_less :: "int \<times> int \<times> frame \<Rightarrow> int \<times> int \<times> frame \<Rightarrow> bool" where
  "entry_less a b = (fst a < fst b \<or> (fst a = fst b \<and> fst (snd a) < fst (snd b)))"

fun pq_min :: "int \<times> int \<times> frame \<Rightarrow> (int \<times> int \<times> frame) list \<Rightarrow> int \<times> int \<times> frame" where
  "pq_min m [] = m"
| "pq_min m (x # xs) = pq_min (if entry_less x m then x else m) xs"

definition pq_get ::
  "(int \<times> int \<times> frame) list \<Rightarrow> ((int \<times> int \<times> frame) \<times> (int \<times> int \<times> frame) list) option" where
  "pq_get q = (case q of [] \<Rightarrow> None | x # xs \<Rightarrow> Some (pq_min x xs, remove1 (pq_min x xs) q))"

text \<open>
  One pass through the loop of \<^verbatim>\<open>_sink_clock_task_handler\<close>. The environment of
  the pass is a \<open>clock_tick\<close>: the reading of the pipeline clock, and whether a
  cancellation request reaches the task while it is suspended in \<^verbatim>\<open>get\<close> or in
  \<^verbatim>\<open>sleep\<close>. A pass that finds the queue empty stays suspended in \<^verbatim>\<open>get\<close>.
  The result says whether the loop goes on.
\<close>

record clock_tick =
  clock_time :: int
  cancel_get :: bool
  cancel_sleep :: bool

definition sink_clock_iteration ::
  "hooks \<Rightarrow> clock_tick \<Rightarrow> transport \<Rightarrow> transport \<times> task_status" where
  "sink_clock_iteration h t st =
     (case sink_clock_queue st of
        None \<Rightarrow> (st\<lparr>logged := logged st @ [AttributeError]\<rparr>, Running)
      | Some q \<Rightarrow>
          if cancel_get t then (st, Cancelled)
          else case pq_get q of
            None \<Rightarrow> (st, Running)
          | Some ((timestamp, i, f), q1) \<Rightarrow>
              let st1 = st\<lparr>sink_clock_queue := Some q1\<rparr> in
              if body f = EndFrame then (st1, Finished)
              else if clock_time t < timestamp \<and> cancel_sleep t then (st1, Cancelled)
              else
                let st2 = (if clock_time t < timestamp
                           then st1\<lparr>clock_sleeps := clock_sleeps st1 @ [timestamp - clock_time t]\<rparr>
                           else st1)
                in case sink_frame_handler h f st2 of
                     Inl e \<Rightarrow>
                       if e = CancelledError then (st2, Cancelled)
                       else if is_exception e then (st2\<lparr>logged := logged st2 @ [e]\<rparr>, Running)
                       else (st2, Failed e)
                   | Inr st3 \<Rightarrow> (push_frame f DOWNSTREAM st3, Running))"

fun sink_clock_task_handler ::
  "hooks \<Rightarrow> clock_tick list \<Rightarrow> transport \<Rightarrow> transport \<times> task_status" where
  "sink_clock_task_handler h [] st = (st, Running)"
| "sink_clock_task_handler h (t # ts) st =
     (case sink_clock_iteration h t st of
        (st1, Running) \<Rightarrow> sink_clock_task_handler h ts st1
      | r \<Rightarrow> r)"

text \<open>
  The FIFO task. Its local variables are a record; \<open>sink_task_init\<close> is the code before
  the loop (with the \<open>silence\<close> buffer of the mixer generator).
\<close>

record sink_locals =
  chunk_period :: int
  bot_speaking_counter :: int
  last_frame_time :: real
  silence :: "byte list"

definition sink_task_init :: "transport \<Rightarrow> py_error + sink_locals" where
  "sink_task_init st =
     (case int_truediv 200 (audio_out_10ms_chunks (params st) * 10) of
        Inl e \<Rightarrow> Inl e
      | Inr q \<Rightarrow> Inr \<lparr>chunk_period = max q 1, bot_speaking_counter = 0, last_frame_time = 0,
                     silence = replicate (nat (audio_chunk_size st)) 0\<rparr>)"

text \<open>
  One step of the generator \<^verbatim>\<open>_next_frame\<close>: without mixer, a step that finds the
  queue empty is the timeout after \<open>BOT_VAD_STOP_SECS\<close>; with mixer it yields the mixer's
  part alone. \<open>wall_time\<close> is the reading of \<^verbatim>\<open>time.time()\<close>; \<open>BOT_VAD_STOP_SECS\<close>
  is the float literal \<^verbatim>\<open>0.35\<close>, the rounded quotient of 35 and 100.
\<close>

record sink_tick =
  wall_time :: real
  cancel_wait :: bool

definition mix_frame :: "hooks \<Rightarrow> frame \<Rightarrow> frame" where
  "mix_frame h f = (case body f of
       OutputAudio cls a r n \<Rightarrow> f\<lparr>body := OutputAudio cls (mix h a) r n\<rparr>
     | _ \<Rightarrow> f)"

definition next_frame ::
  "float_ops \<Rightarrow> hooks \<Rightarrow> sink_tick \<Rightarrow> sink_locals \<Rightarrow> transport
     \<Rightarrow> py_error + (frame option \<times> sink_locals \<times> transport)" where
  "next_frame fl h t loc st =
     (if cancel_wait t then Inl CancelledError
      else case sink_queue st of
        None \<Rightarrow> Inl AttributeError
      | Some q \<Rightarrow>
          if \<not> audio_out_mixer (params st) then
            (case q of
               [] \<Rightarrow> Inr (None, loc, bot_stopped_speaking st)
             | f # q1 \<Rightarrow> Inr (Some f, loc, st\<lparr>sink_queue := Some q1\<rparr>))
          else
            (case q of
               f # q1 \<Rightarrow> Inr (Some (mix_frame h f), loc\<lparr>last_frame_time := wall_time t\<rparr>,
                              st\<lparr>sink_queue := Some q1\<rparr>)
             | [] \<Rightarrow>
                 let st1 = (if fdiv fl 35 100 < fsub fl (wall_time t) (last_frame_time loc)
                            then bot_stopped_speaking st else st);
                     (f, st2) = new_frame (OutputAudio OutputAudioRawFrame (mix h (silence loc))
                                  (sample_rate st1) (audio_out_channels (params st1))) st1
                 in Inr (Some f, loc, st2)))"

definition push_bot_speaking :: "transport \<Rightarrow> transport" where
  "push_bot_speaking st =
     (let (f1, st1) = new_frame BotSpeakingFrame st;
          st2 = push_frame f1 DOWNSTREAM st1;
          (f2, st3) = new_frame BotSpeakingFrame st2
      in push_frame f2 UPSTREAM st3)"

definition sink_task_iteration ::
  "float_ops \<Rightarrow> hooks \<Rightarrow> sink_tick \<Rightarrow> sink_locals \<times> transport \<Rightarrow> (sink_locals \<times> transport) \<times> task_status" where
  "sink_task_iteration fl h t s =
     (case next_frame fl h t (fst s) (snd s) of
        Inl e \<Rightarrow> (s, if e = CancelledError then Cancelled else Failed e)
      | Inr (None, loc, st) \<Rightarrow> ((loc, st), Running)
      | Inr (Some f, loc, st) \<Rightarrow>
          let (loc1, st1) =
                (if is_tts f then
                   (let sta = bot_started_speaking st in
                    if bot_speaking_counter loc mod chunk_period loc = 0
                    then (loc\<lparr>bot_speaking_counter := 0 + 1\<rparr>, push_bot_speaking sta)
                    else (loc\<lparr>bot_speaking_counter := bot_speaking_counter loc + 1\<rparr>, sta))
                 else (loc, st))
          in if body f = EndFrame then ((loc1, st1), Finished)
             else case sink_frame_handler h f st1 of
               Inl e \<Rightarrow> ((loc1, st1), if e = CancelledError then Cancelled else Failed e)
             | Inr st2 \<Rightarrow>
                 let st3 = push_frame f DOWNSTREAM st2 in
                 if is_audio f then
                   (case write_raw_audio_frames h (audio_of f) of
                      None \<Rightarrow> ((loc1, st3\<lparr>written_audio := written_audio st3 @ [audio_of f]\<rparr>),
                                Running)
                    | Some e \<Rightarrow> ((loc1, st3), if e = CancelledError then Cancelled else Failed e))
                 else ((loc1, st3), Running))"

fun sink_task_handler ::
  "float_ops \<Rightarrow> hooks \<Rightarrow> sink_tick list \<Rightarrow> sink_locals \<times> transport
     \<Rightarrow> (sink_locals \<times> transport) \<times> task_status" where
  "sink_task_handler fl h [] s = (s, Running)"
| "sink_task_handler fl h (t # ts) s =
     (case sink_task_iteration fl h t s of
        (s1, Running) \<Rightarrow> sink_task_handler fl h ts s1
      | r \<Rightarrow> r)"

subsection \<open>The video task in live mode\<close>

text \<open>The code of \<^verbatim>\<open>_video_out_task_handler\<close> before its loop.\<close>

definition video_out_task_init :: "float_ops \<Rightarrow> transport \<Rightarrow> py_error + transport" where
  "video_out_task_init fl st =
     (if video_out_framerate (params st) = 0 then Inl ZeroDivisionError
      else
        let frame_duration = fdiv fl 1 (real_of_int (video_out_framerate (params st)))
        in Inr (st\<lparr>video_out_start_time := None, video_out_frame_index := 0,
                   video_out_frame_duration := frame_duration,
                   video_out_frame_reset := fmul fl frame_duration 5\<rparr>))"

definition draw_image :: "hooks \<Rightarrow> frame \<Rightarrow> transport \<Rightarrow> py_error + transport" where
  "draw_image h f st =
     (case body f of
        OutputImageRawFrame img \<Rightarrow>
          let desired_size = (video_out_width (params st), video_out_height (params st));
              (img1, st1) = (if image_size img \<noteq> desired_size
                             then (resize h img desired_size, st\<lparr>id_counter := id_counter st + 1\<rparr>)
                             else (img, st))
          in (case write_raw_video_frame h img1 of
                None \<Rightarrow> Inr (st1\<lparr>video_log := video_log st1 @ [Wrote img1]\<rparr>)
              | Some e \<Rightarrow> Inl e)
      | _ \<Rightarrow> Inl AttributeError)"

text \<open>
  \<^verbatim>\<open>_video_out_is_live_handler\<close>. It reads \<^verbatim>\<open>time.time()\<close> up to three times:
  when it sets the baseline, when it measures the elapsed time, and when it resets; a
  \<open>video_tick\<close> holds the three readings. \<open>delay_time\<close> is the source's local variable
  of that name, computed once the baseline is set. A call that finds the queue empty
  stays suspended in \<^verbatim>\<open>get\<close>.
\<close>

record video_tick =
  time_baseline :: real
  time_elapsed :: real
  time_reset :: real

definition first_image :: "transport \<Rightarrow> bool" where
  "first_image st = (video_out_start_time st = None \<or> video_out_start_time st = Some 0)"

definition set_baseline :: "video_tick \<Rightarrow> transport \<Rightarrow> transport" where
  "set_baseline t st =
     (if first_image st
      then st\<lparr>video_out_start_time := Some (time_baseline t), video_out_frame_index := 0,
              video_log := video_log st @ [TimeRead (time_baseline t)]\<rparr>
      else st)"

definition delay_time :: "float_ops \<Rightarrow> video_tick \<Rightarrow> transport \<Rightarrow> real" where
  "delay_time fl t st =
     (let real_elapsed_time =
            fsub fl (time_elapsed t) (case video_out_start_time st of Some s \<Rightarrow> s | None \<Rightarrow> 0);
          real_render_time =
            fmul fl (real_of_int (video_out_frame_index st)) (video_out_frame_duration st)
      in fsub fl (fadd fl (video_out_frame_duration st) real_render_time) real_elapsed_time)"

definition video_out_is_live_handler ::
  "float_ops \<Rightarrow> hooks \<Rightarrow> video_tick \<Rightarrow> transport \<Rightarrow> py_error + transport" where
  "video_out_is_live_handler fl h t st =
     (case video_out_queue st of
        None \<Rightarrow> Inl AttributeError
      | Some [] \<Rightarrow> Inr st
      | Some (im # q) \<Rightarrow>
          let st1 = set_baseline t (st\<lparr>video_out_queue := Some q\<rparr>);
              d = delay_time fl t st1;
              st2 = st1\<lparr>video_log := video_log st1 @ [TimeRead (time_elapsed t)]\<rparr>;
              st3 = (if video_out_frame_reset st2 < \<bar>d\<bar>
                     then st2\<lparr>video_out_start_time := Some (time_reset t),
                              video_out_frame_index := 0,
                              video_log := video_log st2 @ [TimeRead (time_reset t)]\<rparr>
                     else if 0 < d
                     then st2\<lparr>video_log := video_log st2 @ [Slept d],
                              video_out_frame_index := video_out_frame_index st2 + 1\<rparr>
                     else st2)
          in draw_image h im st3)"

subsection \<open>What the scheduled task delivers\<close>

text \<open>
  The exception \<^verbatim>\<open>_sink_frame_handler\<close> raises on a frame, if any: only a
  transport message reaches a hook that can raise.
\<close>

definition raises :: "hooks \<Rightarrow> frame \<Rightarrow> py_error option" where
  "raises h f = (if body f = TransportMessageFrame then send_message h f else None)"

text \<open>
  The order in which successive \<^verbatim>\<open>get\<close> calls hand out the content of the
  scheduled queue when nothing is put in between.
\<close>

fun drain :: "nat \<Rightarrow> (int \<times> int \<times> frame) list \<Rightarrow> (int \<times> int \<times> frame) list" where
  "drain 0 q = []"
| "drain (Suc n) q = (case pq_get q of None \<Rightarrow> [] | Some (m, q1) \<Rightarrow> m # drain n q1)"

definition delivery_order :: "(int \<times> int \<times> frame) list \<Rightarrow> (int \<times> int \<times> frame) list" where
  "delivery_order q = drain (length q) q"

text \<open>The pushes the task makes for a list of entries: one per frame whose handling does not raise.\<close>

definition delivered :: "hooks \<Rightarrow> (int \<times> int \<times> frame) list \<Rightarrow> (frame \<times> direction) list" where
  "delivered h es =
     map (\<lambda>e. (snd (snd e), DOWNSTREAM)) (filter (\<lambda>e. raises h (snd (snd e)) = None) es)"

text \<open>The key of an entry, and a queue in which no two entries have the same key.\<close>

definition key_of :: "int \<times> int \<times> frame \<Rightarrow> int \<times> int" where
  "key_of e = (fst e, fst (snd e))"

definition distinct_keys :: "(int \<times> int \<times> frame) list \<Rightarrow> bool" where
  "distinct_keys q = distinct (map key_of q)"

definition is_end :: "int \<times> int \<times> frame \<Rightarrow> bool" where
  "is_end e = (body (snd (snd e)) = EndFrame)"

text \<open>A tick in which no cancellation request arrives.\<close>

definition quiet :: "clock_tick \<Rightarrow> bool" where
  "quiet t = (\<not> cancel_get t \<and> \<not> cancel_sleep t)"

subsection \<open>A concrete configuration\<close>

text \<open>16 kHz mono output written in chunks of 20 ms, without mixer or video.\<close>

definition demo_params :: transport_params where
  "demo_params = \<lparr>audio_out_enabled = True, audio_out_sample_rate = Some 16000,
     audio_out_channels = 1, audio_out_10ms_chunks = 2, audio_out_mixer = False,
     video_out_enabled = False, video_out_is_live = False, video_out_width = 1024,
     video_out_height = 768, video_out_framerate = 30\<rparr>"

definition audio_frame :: "int \<Rightarrow> audio_class \<Rightarrow> byte list \<Rightarrow> frame" where
  "audio_frame i cls a = \<lparr>frame_id = i, pts = None, body = OutputAudio cls a 16000 1\<rparr>"

text \<open>Hooks that do nothing, as the base class has them; the resampler keeps the audio.\<close>

definition default_hooks :: hooks where
  "default_hooks = \<lparr>resample = (\<lambda>a r s. a), mix = (\<lambda>a. a), resize = (\<lambda>i s. i\<lparr>image_size := s\<rparr>),
     send_message = (\<lambda>f. None), write_raw_audio_frames = (\<lambda>a. None),
     write_raw_video_frame = (\<lambda>i. None)\<rparr>"

text \<open>The state in which Start leaves a fresh transport with this configuration.\<close>

definition demo_started :: transport where
  "demo_started = (init demo_params)\<lparr>sample_rate := 16000, audio_chunk_size := 640,
     sink_queue := Some [], sink_task := Some 0, sink_clock_queue := Some [],
     sink_clock_task := Some 1, task_counter := 2\<rparr>"

subsection \<open>Observations\<close>

text \<open>The tasks a handle stands for: none or one.\<close>

definition task_list :: "nat option \<Rightarrow> nat list" where
  "task_list t = (case t of None \<Rightarrow> [] | Some n \<Rightarrow> [n])"

text \<open>
  The speaking transitions in a trace of pushes: a transition pushes its frame downstream
  and upstream, so the downstream pushes count them.
\<close>

definition is_transition :: "frame \<times> direction \<Rightarrow> bool" where
  "is_transition p = (snd p = DOWNSTREAM
     \<and> (body (fst p) = BotStartedSpeakingFrame \<or> body (fst p) = BotStoppedSpeakingFrame))"

definition transitions :: "(frame \<times> direction) list \<Rightarrow> frame_body list" where
  "transitions ps = map (\<lambda>p. body (fst p)) (filter is_transition ps)"

text \<open>
  \<open>alternating b ts\<close>: the transitions \<open>ts\<close> alternate, beginning with a stop when the
  flag \<open>b\<close> is set and with a start when it is not.
\<close>

fun alternating :: "bool \<Rightarrow> frame_body list \<Rightarrow> bool" where
  "alternating b [] = True"
| "alternating b (x # xs) =
     (x = (if b then BotStoppedSpeakingFrame else BotStartedSpeakingFrame) \<and> alternating (\<not> b) xs)"

text \<open>Calls of the two speaking-state methods, in any order.\<close>

datatype speaking_call = Started | Stopped

fun speaking_calls :: "speaking_call list \<Rightarrow> transport \<Rightarrow> transport" where
  "speaking_calls [] st = st"
| "speaking_calls (Started # cs) st = speaking_calls cs (bot_started_speaking st)"
| "speaking_calls (Stopped # cs) st = speaking_calls cs (bot_stopped_speaking st)"

subsection \<open>What the FIFO task delivers\<close>

text \<open>
  The speaking notifications are frames the transport makes itself; every other frame
  it pushes downstream is one it took from a queue. \<open>deliveries\<close> are those frames
  in a trace of pushes, in order, and \<open>pulses\<close> counts the \<open>BotSpeakingFrame\<close>
  notifications (each is pushed downstream and upstream; the downstream pushes count
  them).
\<close>

definition is_notification :: "frame \<Rightarrow> bool" where
  "is_notification f = (body f = BotStartedSpeakingFrame \<or> body f = BotStoppedSpeakingFrame
     \<or> body f = BotSpeakingFrame)"

definition deliveries :: "(frame \<times> direction) list \<Rightarrow> frame list" where
  "deliveries ps = map fst (filter (\<lambda>p. snd p = DOWNSTREAM \<and> \<not> is_notification (fst p)) ps)"

definition pulses :: "(frame \<times> direction) list \<Rightarrow> int" where
  "pulses ps = int (length (filter (\<lambda>p. snd p = DOWNSTREAM \<and> body (fst p) = BotSpeakingFrame) ps))"

text \<open>The frame the generator yields for a queued frame: with a mixer its audio is mixed.\<close>

definition yielded :: "hooks \<Rightarrow> transport \<Rightarrow> frame \<Rightarrow> frame" where
  "yielded h st f = (if audio_out_mixer (params st) then mix_frame h f else f)"

text \<open>
  A frame the FIFO task handles without an exception: it is not a notification, its
  handling does not raise, and if it is audio the write hook accepts it.
\<close>

definition deliverable :: "hooks \<Rightarrow> transport \<Rightarrow> frame \<Rightarrow> bool" where
  "deliverable h st f = (body f \<noteq> EndFrame \<and> \<not> is_notification f \<and> raises h f = None
     \<and> (is_audio f \<longrightarrow> write_raw_audio_frames h (audio_of (yielded h st f)) = None))"

text \<open>
  Where the pulse counter stands: the number of TTS chunks since the last pulse, less
  one (and as if a whole period had passed before the first chunk).
\<close>

definition phase :: "sink_locals \<Rightarrow> int" where
  "phase loc = (if bot_speaking_counter loc = 0 then chunk_period loc - 1
                else bot_speaking_counter loc - 1)"

text \<open>
  Arithmetic without rounding: what float arithmetic does whenever the exact result is
  itself a float, as it is at every step of the runs below (their operands are small
  multiples of one half).
\<close>

definition exact_floats :: float_ops where
  "exact_floats = \<lparr>fadd = (\<lambda>a b. a + b), fsub = (\<lambda>a b. a - b), fmul = (\<lambda>a b. a * b),
     fdiv = (\<lambda>a b. a / b)\<rparr>"

text \<open>
  A live video configuration at one frame per second, and the state of its transport
  once the video task runs and two images of the configured size wait in its queue.
\<close>

definition demo_image :: frame where
  "demo_image = \<lparr>frame_id = 1, pts = None,
     body = OutputImageRawFrame \<lparr>image_bytes = [], image_size = (1024, 768), image_format = ''RGB''\<rparr>\<rparr>"

definition demo_video :: transport where
  "demo_video = (init (demo_params\<lparr>video_out_enabled := True, video_out_is_live := True,
        video_out_framerate := 1\<rparr>))
     \<lparr>video_out_queue := Some [demo_image, demo_image], video_out_task := Some 0,
      task_counter := 1, video_out_frame_duration := 1, video_out_frame_reset := 5\<rparr>"

text \<open>
  That state after the first image arrived at time 10: the pacer set the baseline, slept
  one period and rendered.
\<close>

definition demo_video_next :: transport where
  "demo_video_next = demo_video
     \<lparr>video_out_queue := Some [demo_image], video_out_start_time := Some 10,
      video_out_frame_index := 1,
      video_log := [TimeRead 10, TimeRead 10, Slept 1,
        Wrote \<lparr>image_bytes = [], image_size = (1024, 768), image_format = ''RGB''\<rparr>]\<rparr>"

text \<open>
  A frame with a presentation timestamp, a tick of the scheduled task at a given clock
  time without cancellation, and hooks whose \<^verbatim>\<open>send_message\<close> always fails.
\<close>

definition pts_frame :: "int \<Rightarrow> int \<Rightarrow> frame_body \<Rightarrow> frame" where
  "pts_frame i p b = \<lparr>frame_id = i, pts = Some p, body = b\<rparr>"

definition tick_at :: "int \<Rightarrow> clock_tick" where
  "tick_at n = \<lparr>clock_time = n, cancel_get = False, cancel_sleep = False\<rparr>"


text \<open>
  The state in which Start leaves a fresh transport at 16 kHz mono whose chunks hold
  \<open>c\<close> times 10 ms (320 bytes each), with frames waiting in the FIFO queue; a TTS
  chunk of \<open>n\<close> bytes; and a pass of the FIFO task that no cancellation reaches.
\<close>

definition started_with :: "int \<Rightarrow> frame list \<Rightarrow> transport" where
  "started_with c q = (init (demo_params\<lparr>audio_out_10ms_chunks := c\<rparr>))
     \<lparr>sample_rate := 16000, audio_chunk_size := 320 * c, sink_queue := Some q,
      sink_task := Some 0, sink_clock_queue := Some [], sink_clock_task := Some 1,
      task_counter := 2\<rparr>"

definition tts_chunk :: "int \<Rightarrow> nat \<Rightarrow> frame" where
  "tts_chunk i n = audio_frame i TTSAudioRawFrame (replicate n 0)"

definition wait_tick :: sink_tick where
  "wait_tick = \<lparr>wall_time = 0, cancel_wait = False\<rparr>"

section \<open>The audio chunker\<close>

lemma chunk_loop_total:
  assumes "0 < audio_chunk_size st" and "sink_queue st = Some q"
  shows "\<exists>st' chunks. chunk_loop cls nch st = Some (Inr st')
     \<and> sink_queue st' = Some (q @ chunks)
     \<and> (\<forall>c \<in> set chunks. is_audio c \<and> int (length (audio_of c)) = audio_chunk_size st)
     \<and> concat (map audio_of chunks) @ audio_buffer st' = audio_buffer st
     \<and> int (length (audio_buffer st')) < audio_chunk_size st
     \<and> params st' = params st \<and> audio_chunk_size st' = audio_chunk_size st
     \<and> sample_rate st' = sample_rate st \<and> bot_speaking st' = bot_speaking st
     \<and> pushed st' = pushed st"
  using assms
proof (induction "length (audio_buffer st)" arbitrary: st q rule: less_induct)
  case less
  show ?case
  proof (cases "audio_chunk_size st \<le> int (length (audio_buffer st))")
    case False
    then show ?thesis
      using less.prems
      by (subst chunk_loop.simps) (rule exI [of _ st], rule exI [of _ "[]"], simp)
  next
    case True
    define chunk where "chunk = \<lparr>frame_id = id_counter st, pts = None,
       body = OutputAudio cls (slice_to (audio_buffer st) (audio_chunk_size st)) (sample_rate st) nch\<rparr>"
    define st2 where "st2 = st\<lparr>id_counter := id_counter st + 1, sink_queue := Some (q @ [chunk]),
       audio_buffer := slice_from (audio_buffer st) (audio_chunk_size st)\<rparr>"
    have step: "chunk_loop cls nch st = chunk_loop cls nch st2"
      using True less.prems
      by (subst chunk_loop.simps) (simp add: new_frame_def st2_def chunk_def)
    have len: "length (audio_buffer st2) < length (audio_buffer st)"
      using True less.prems(1) by (simp add: st2_def slice_from_def)
    have "0 < audio_chunk_size st2" "sink_queue st2 = Some (q @ [chunk])"
      using less.prems by (simp_all add: st2_def)
    from less.hyps [OF len this] obtain st' chunks where
      r: "chunk_loop cls nch st2 = Some (Inr st')"
         "sink_queue st' = Some ((q @ [chunk]) @ chunks)"
         "\<forall>c \<in> set chunks. is_audio c \<and> int (length (audio_of c)) = audio_chunk_size st2"
         "concat (map audio_of chunks) @ audio_buffer st' = audio_buffer st2"
         "int (length (audio_buffer st')) < audio_chunk_size st2"
         "params st' = params st2" "audio_chunk_size st' = audio_chunk_size st2"
         "sample_rate st' = sample_rate st2" "bot_speaking st' = bot_speaking st2"
         "pushed st' = pushed st2"
      by blast
    have c1: "is_audio chunk" by (simp add: is_audio_def chunk_def)
    have c2: "int (length (audio_of chunk)) = audio_chunk_size st"
      using True less.prems(1) by (simp add: audio_of_def chunk_def slice_to_def)
    have c3: "audio_of chunk @ audio_buffer st2 = audio_buffer st"
      using less.prems(1) by (simp add: audio_of_def chunk_def st2_def slice_to_def slice_from_def)
    show ?thesis
      apply (rule exI [of _ st'], rule exI [of _ "chunk # chunks"])
      using r c1 c2 c3 step by (simp add: st2_def)
  qed
qed

text \<open>
  With a chunk size that is not positive the loop never ends: it returns only when the
  chunk size is positive, or raises at once because the queue does not exist yet.
\<close>

lemma chunk_loop_returns_only_if:
  assumes "chunk_loop cls nch st = Some r"
  shows "0 < audio_chunk_size st \<or> sink_queue st = None"
  using assms
proof (induction rule: chunk_loop.raw_induct [rotated, consumes 1])
  case (1 chunk_loop cls nch st r)
  then show ?case
    by (fastforce simp: new_frame_def split: if_splits option.splits)
qed

lemma handle_audio_total:
  assumes "audio_out_enabled (params st)" and "0 < audio_chunk_size st"
    and "sink_queue st = Some q"
  shows "\<exists>st' chunks. handle_audio rs f st = Some (Inr st')
     \<and> sink_queue st' = Some (q @ chunks)
     \<and> (\<forall>c \<in> set chunks. is_audio c \<and> int (length (audio_of c)) = audio_chunk_size st)
     \<and> concat (map audio_of chunks) @ audio_buffer st'
         = audio_buffer st @ resampled rs (sample_rate st) f
     \<and> (is_audio f \<or> int (length (audio_buffer st)) < audio_chunk_size st
          \<longrightarrow> int (length (audio_buffer st')) < audio_chunk_size st)
     \<and> params st' = params st \<and> audio_chunk_size st' = audio_chunk_size st
     \<and> sample_rate st' = sample_rate st \<and> bot_speaking st' = bot_speaking st
     \<and> pushed st' = pushed st"
proof (cases "body f")
  case (OutputAudio cls a r nch)
  define st1 where "st1 = st\<lparr>audio_buffer := audio_buffer st @ rs a r (sample_rate st)\<rparr>"
  have h: "handle_audio rs f st = chunk_loop cls nch st1"
    using assms(1) OutputAudio by (simp add: handle_audio_def st1_def)
  have "0 < audio_chunk_size st1" "sink_queue st1 = Some q"
    using assms by (simp_all add: st1_def)
  from chunk_loop_total [OF this, of cls nch] obtain st' chunks where
    r: "chunk_loop cls nch st1 = Some (Inr st')"
       "sink_queue st' = Some (q @ chunks)"
       "\<forall>c \<in> set chunks. is_audio c \<and> int (length (audio_of c)) = audio_chunk_size st1"
       "concat (map audio_of chunks) @ audio_buffer st' = audio_buffer st1"
       "int (length (audio_buffer st')) < audio_chunk_size st1"
       "params st' = params st1" "audio_chunk_size st' = audio_chunk_size st1"
       "sample_rate st' = sample_rate st1" "bot_speaking st' = bot_speaking st1"
       "pushed st' = pushed st1"
    by blast
  show ?thesis
    apply (rule exI [of _ st'], rule exI [of _ chunks])
    using r h OutputAudio by (simp add: st1_def resampled_def)
next
qed (use assms in \<open>auto simp: handle_audio_def resampled_def is_audio_def
       intro!: exI [of _ st] exI [of _ "[]"]\<close>)

text \<open>
  Claim C1. With audio output enabled, a positive chunk size and the FIFO queue in place
  (the state Start leaves), any sequence of audio frames is handled to the end; every
  chunk appended to the FIFO queue holds exactly \<open>audio_chunk_size\<close> bytes; the chunks
  in queue order, followed by what is left in the accumulator, are the bytes the
  accumulator held before followed by the resampled inputs in input order; and what is
  left is shorter than a chunk (once an audio frame was handled, or if it was so
  before): every full chunk has been emitted.
\<close>

theorem chunker_preserves_audio:
  assumes "audio_out_enabled (params st)" and "0 < audio_chunk_size st"
    and "sink_queue st = Some q"
  shows "\<exists>st' chunks. handle_audio_seq rs fs st = Some (Inr st')
     \<and> sink_queue st' = Some (q @ chunks)
     \<and> (\<forall>c \<in> set chunks. is_audio c \<and> int (length (audio_of c)) = audio_chunk_size st)
     \<and> concat (map audio_of chunks) @ audio_buffer st'
         = audio_buffer st @ concat (map (resampled rs (sample_rate st)) fs)
     \<and> ((\<exists>f \<in> set fs. is_audio f) \<or> int (length (audio_buffer st)) < audio_chunk_size st
          \<longrightarrow> int (length (audio_buffer st')) < audio_chunk_size st)"
  using assms
proof (induction fs arbitrary: st q)
  case Nil
  then show ?case by (auto intro!: exI [of _ st] exI [of _ "[]"])
next
  case (Cons f fs)
  from handle_audio_total [OF Cons.prems, of rs f] obtain st1 c1 where
    a: "handle_audio rs f st = Some (Inr st1)"
       "sink_queue st1 = Some (q @ c1)"
       "\<forall>c \<in> set c1. is_audio c \<and> int (length (audio_of c)) = audio_chunk_size st"
       "concat (map audio_of c1) @ audio_buffer st1
         = audio_buffer st @ resampled rs (sample_rate st) f"
       "is_audio f \<or> int (length (audio_buffer st)) < audio_chunk_size st
          \<longrightarrow> int (length (audio_buffer st1)) < audio_chunk_size st"
       "params st1 = params st" "audio_chunk_size st1 = audio_chunk_size st"
       "sample_rate st1 = sample_rate st"
    by blast
  have "audio_out_enabled (params st1)" "0 < audio_chunk_size st1"
    using a Cons.prems by simp_all
  from Cons.IH [OF this a(2)] obtain st2 c2 where
    b: "handle_audio_seq rs fs st1 = Some (Inr st2)"
       "sink_queue st2 = Some ((q @ c1) @ c2)"
       "\<forall>c \<in> set c2. is_audio c \<and> int (length (audio_of c)) = audio_chunk_size st1"
       "concat (map audio_of c2) @ audio_buffer st2
         = audio_buffer st1 @ concat (map (resampled rs (sample_rate st1)) fs)"
       "(\<exists>f \<in> set fs. is_audio f) \<or> int (length (audio_buffer st1)) < audio_chunk_size st1
          \<longrightarrow> int (length (audio_buffer st2)) < audio_chunk_size st1"
    by blast
  have "concat (map audio_of (c1 @ c2)) @ audio_buffer st2
      = concat (map audio_of c1) @ (concat (map audio_of c2) @ audio_buffer st2)"
    by simp
  also have "\<dots> = (concat (map audio_of c1) @ audio_buffer st1)
       @ concat (map (resampled rs (sample_rate st)) fs)"
    using b(4) a(8) by simp
  finally have cat: "concat (map audio_of (c1 @ c2)) @ audio_buffer st2
      = audio_buffer st @ concat (map (resampled rs (sample_rate st)) (f # fs))"
    using a(4) by simp
  have rem: "(\<exists>g \<in> set (f # fs). is_audio g) \<or> int (length (audio_buffer st)) < audio_chunk_size st
          \<longrightarrow> int (length (audio_buffer st2)) < audio_chunk_size st"
    using a(5) b(5) a(7) by auto
  have run: "handle_audio_seq rs (f # fs) st = Some (Inr st2)"
    using a(1) b(1) by simp
  have q: "sink_queue st2 = Some (q @ (c1 @ c2))"
    using b(2) by simp
  have len: "\<forall>c \<in> set (c1 @ c2). is_audio c \<and> int (length (audio_of c)) = audio_chunk_size st"
    using a(3) b(3) a(7) by auto
  from run q len cat rem show ?case
    by blast
qed

text \<open>
  Five bytes in two frames at a chunk size of two: the chunks \<open>[1, 2]\<close> and \<open>[3, 4]\<close>
  are queued, in that order, and \<open>[5]\<close> stays in the accumulator.
\<close>

lemma demo_chunks:
  "handle_audio_seq (\<lambda>a r s. a)
     [audio_frame 7 TTSAudioRawFrame [1, 2, 3], audio_frame 8 TTSAudioRawFrame [4, 5]]
     (demo_started\<lparr>audio_chunk_size := 2\<rparr>)
   = Some (Inr (demo_started\<lparr>audio_chunk_size := 2, id_counter := 2, audio_buffer := [5],
        sink_queue := Some [\<lparr>frame_id = 0, pts = None, body = OutputAudio TTSAudioRawFrame [1, 2] 16000 1\<rparr>,
                            \<lparr>frame_id = 1, pts = None, body = OutputAudio TTSAudioRawFrame [3, 4] 16000 1\<rparr>]\<rparr>))"
  apply (simp add: handle_audio_def audio_frame_def demo_started_def init_def demo_params_def)
  apply (subst chunk_loop.simps)
  apply (simp add: new_frame_def slice_to_def slice_from_def)
  apply (subst chunk_loop.simps)
  apply (simp add: handle_audio_def)
  apply (subst chunk_loop.simps)
  apply (simp add: new_frame_def slice_to_def slice_from_def)
  apply (subst chunk_loop.simps)
  apply simp
  done

theorem chunker_preserves_audio_witness:
  "audio_out_enabled (params (demo_started\<lparr>audio_chunk_size := 2\<rparr>))
   \<and> 0 < audio_chunk_size (demo_started\<lparr>audio_chunk_size := 2\<rparr>)
   \<and> sink_queue (demo_started\<lparr>audio_chunk_size := 2\<rparr>) = Some []
   \<and> handle_audio_seq (\<lambda>a r s. a)
        [audio_frame 7 TTSAudioRawFrame [1, 2, 3], audio_frame 8 TTSAudioRawFrame [4, 5]]
        (demo_started\<lparr>audio_chunk_size := 2\<rparr>)
      = Some (Inr (demo_started\<lparr>audio_chunk_size := 2, id_counter := 2, audio_buffer := [5],
          sink_queue := Some [\<lparr>frame_id = 0, pts = None, body = OutputAudio TTSAudioRawFrame [1, 2] 16000 1\<rparr>,
                              \<lparr>frame_id = 1, pts = None, body = OutputAudio TTSAudioRawFrame [3, 4] 16000 1\<rparr>]\<rparr>))
   \<and> (\<exists>st' chunks.
        handle_audio_seq (\<lambda>a r s. a)
          [audio_frame 7 TTSAudioRawFrame [1, 2, 3], audio_frame 8 TTSAudioRawFrame [4, 5]]
          (demo_started\<lparr>audio_chunk_size := 2\<rparr>) = Some (Inr st')
      \<and> sink_queue st' = Some ([] @ chunks)
      \<and> (\<forall>c \<in> set chunks. is_audio c \<and> int (length (audio_of c)) = 2)
      \<and> concat (map audio_of chunks) @ audio_buffer st' = [1, 2, 3, 4, 5]
      \<and> int (length (audio_buffer st')) < 2)"
proof -
  have h: "audio_out_enabled (params (demo_started\<lparr>audio_chunk_size := 2\<rparr>))"
    "0 < audio_chunk_size (demo_started\<lparr>audio_chunk_size := 2\<rparr>)"
    "sink_queue (demo_started\<lparr>audio_chunk_size := 2\<rparr>) = Some []"
    by (simp_all add: demo_started_def init_def demo_params_def)
  have b: "audio_buffer (demo_started\<lparr>audio_chunk_size := 2\<rparr>) = []"
    "sample_rate (demo_started\<lparr>audio_chunk_size := 2\<rparr>) = 16000"
    by (simp_all add: demo_started_def init_def)
  have r: "concat (map (resampled (\<lambda>a r s. a) 16000)
        [audio_frame 7 TTSAudioRawFrame [1, 2, 3], audio_frame 8 TTSAudioRawFrame [4, 5]])
      = [1, 2, 3, 4, 5]"
    "\<exists>f \<in> set [audio_frame 7 TTSAudioRawFrame [1, 2, 3], audio_frame 8 TTSAudioRawFrame [4, 5]]. is_audio f"
    by (simp_all add: resampled_def audio_frame_def is_audio_def)
  from chunker_preserves_audio [OF h, of "\<lambda>a r s. a"
      "[audio_frame 7 TTSAudioRawFrame [1, 2, 3], audio_frame 8 TTSAudioRawFrame [4, 5]]"]
  obtain st' chunks where
    t: "handle_audio_seq (\<lambda>a r s. a)
          [audio_frame 7 TTSAudioRawFrame [1, 2, 3], audio_frame 8 TTSAudioRawFrame [4, 5]]
          (demo_started\<lparr>audio_chunk_size := 2\<rparr>) = Some (Inr st')"
       "sink_queue st' = Some ([] @ chunks)"
       "\<forall>c \<in> set chunks. is_audio c \<and> int (length (audio_of c)) = 2"
       "concat (map audio_of chunks) @ audio_buffer st' = [1, 2, 3, 4, 5]"
       "int (length (audio_buffer st')) < 2"
    unfolding b r(1) using r(2) h(2) by auto
  from h demo_chunks t show ?thesis by blast
qed

section \<open>The chunk size\<close>

lemma start_chunk_size:
  assumes "0 \<le> py_or (audio_out_sample_rate (params st)) r"
  shows "\<exists>st'. start r st = Inr st'
     \<and> sample_rate st' = py_or (audio_out_sample_rate (params st)) r
     \<and> audio_chunk_size st' = (py_or (audio_out_sample_rate (params st)) r div 100)
           * audio_out_channels (params st) * 2 * audio_out_10ms_chunks (params st)"
proof -
  have c: "sample_rate (create_sink_tasks (create_video_task s)) = sample_rate s"
    "audio_chunk_size (create_sink_tasks (create_video_task s)) = audio_chunk_size s" for s
    by (simp_all add: create_sink_tasks_def create_video_task_def Let_def)
  have "sgn x * (\<bar>x\<bar> div 100) = x div 100" if "0 \<le> x" for x :: int
    using that by (cases "x = 0") (simp_all add: sgn_if)
  with assms show ?thesis
    by (simp add: start_def int_truediv_def Let_def c)
qed

lemma demo_start: "start r (init demo_params) = Inr demo_started"
  by (simp add: start_def init_def demo_params_def demo_started_def int_truediv_def py_or_def
      Let_def create_sink_tasks_def create_video_task_def)

lemma demo_feed:
  assumes "is_audio f" and "length (resampled rs 16000 f) = 1000"
  shows "\<exists>st2 c. handle_audio rs f demo_started = Some (Inr st2) \<and> sink_queue st2 = Some [c]
     \<and> length (audio_of c) = 640 \<and> length (audio_buffer st2) = 360
     \<and> audio_of c @ audio_buffer st2 = resampled rs 16000 f"
proof -
  from assms(1) obtain cls a rate nch where b: "body f = OutputAudio cls a rate nch"
    by (auto simp: is_audio_def split: frame_body.splits)
  with assms(2) have l: "length (rs a rate 16000) = 1000"
    by (simp add: resampled_def)
  show ?thesis
    using b l
    apply (simp add: handle_audio_def init_def demo_params_def demo_started_def resampled_def)
    apply (subst chunk_loop.simps)
    apply (simp add: new_frame_def slice_to_def slice_from_def)
    apply (subst chunk_loop.simps)
    apply (simp add: audio_of_def)
    done
qed

text \<open>
  Claim C6. For a sample rate that is not negative (and below \<open>2 ^ 47\<close>, where the float
  quotient is exact), Start sets the chunk size to
  \<open>(sample_rate div 100) * channels * 2 * audio_out_10ms_chunks\<close>. At 16000 Hz, one
  channel and two 10 ms chunks, it is 640, and an audio frame whose resampled audio has
  1000 bytes puts exactly one chunk of 640 bytes on the FIFO queue and leaves 360 bytes
  in the accumulator.
\<close>

theorem chunk_size_at_start:
  "(0 \<le> py_or (audio_out_sample_rate (params st)) r
      \<and> py_or (audio_out_sample_rate (params st)) r < 2 ^ 47 \<longrightarrow>
      (\<exists>st'. start r st = Inr st'
         \<and> audio_chunk_size st' = (py_or (audio_out_sample_rate (params st)) r div 100)
              * audio_out_channels (params st) * 2 * audio_out_10ms_chunks (params st)))
   \<and> start r (init demo_params) = Inr demo_started
   \<and> audio_chunk_size demo_started = 640
   \<and> (is_audio f \<and> length (resampled rs (sample_rate demo_started) f) = 1000 \<longrightarrow>
        (\<exists>st2 c. handle_audio rs f demo_started = Some (Inr st2) \<and> sink_queue st2 = Some [c]
           \<and> length (audio_of c) = 640 \<and> length (audio_buffer st2) = 360
           \<and> audio_of c @ audio_buffer st2 = resampled rs (sample_rate demo_started) f))"
proof -
  have sr: "sample_rate demo_started = 16000" "audio_chunk_size demo_started = 640"
    by (simp_all add: demo_started_def)
  show ?thesis
    using start_chunk_size [of st r] demo_start [of r] demo_feed [of f rs]
    by (simp only: sr) blast
qed

theorem chunk_size_at_start_witness:
  "0 \<le> py_or (audio_out_sample_rate (params (init demo_params))) 24000
   \<and> py_or (audio_out_sample_rate (params (init demo_params))) 24000 < 2 ^ 47
   \<and> (\<exists>st'. start 24000 (init demo_params) = Inr st' \<and> audio_chunk_size st' = 640)
   \<and> is_audio (audio_frame 1 TTSAudioRawFrame (replicate 1000 0))
   \<and> length (resampled (\<lambda>a r s. a) (sample_rate demo_started)
        (audio_frame 1 TTSAudioRawFrame (replicate 1000 0))) = 1000
   \<and> (\<exists>st2 c. handle_audio (\<lambda>a r s. a) (audio_frame 1 TTSAudioRawFrame (replicate 1000 0))
          demo_started = Some (Inr st2) \<and> sink_queue st2 = Some [c]
        \<and> length (audio_of c) = 640 \<and> length (audio_buffer st2) = 360)"
proof -
  have a: "py_or (audio_out_sample_rate (params (init demo_params))) 24000 = 16000"
    by (simp add: init_def demo_params_def py_or_def)
  have b: "is_audio (audio_frame 1 TTSAudioRawFrame (replicate 1000 0))"
    "length (resampled (\<lambda>a r s. a) (sample_rate demo_started)
        (audio_frame 1 TTSAudioRawFrame (replicate 1000 0))) = 1000"
    by (simp_all add: is_audio_def audio_frame_def resampled_def)
  have c: "audio_out_channels (params (init demo_params)) = 1"
    "audio_out_10ms_chunks (params (init demo_params)) = 2"
    by (simp_all add: init_def demo_params_def)
  show ?thesis
    using chunk_size_at_start [of "init demo_params" 24000
        "audio_frame 1 TTSAudioRawFrame (replicate 1000 0)" "\<lambda>a r s. a"] b
    by (simp add: a c) blast
qed

section \<open>Disabled media\<close>

text \<open>
  Claim C10. With audio output disabled the router hands an audio frame to
  \<^verbatim>\<open>_handle_audio\<close>, which returns at once: the transport is left exactly as it
  was, so nothing is queued or pushed and the accumulator is unchanged. With video
  output disabled the same holds for an image or sprite frame and \<^verbatim>\<open>_handle_image\<close>.
\<close>

theorem disabled_media_dropped:
  "(\<not> audio_out_enabled (params st) \<and> is_audio f \<longrightarrow>
      handle_audio (resample h) f st = Some (Inr st) \<and> process_frame h f d st = Some (Inr st))
   \<and> (\<not> video_out_enabled (params st) \<and> is_image f \<longrightarrow>
      handle_image f st = Inr st \<and> process_frame h f d st = Some (Inr st))"
  by (cases "body f")
     (simp_all add: process_frame_def handle_audio_def handle_image_def is_audio_def is_image_def
       is_system_def)

theorem disabled_media_dropped_witness:
  "\<not> audio_out_enabled (params (demo_started\<lparr>params := demo_params\<lparr>audio_out_enabled := False\<rparr>\<rparr>))
   \<and> is_audio (audio_frame 1 TTSAudioRawFrame [1, 2, 3])
   \<and> process_frame default_hooks (audio_frame 1 TTSAudioRawFrame [1, 2, 3]) DOWNSTREAM
        (demo_started\<lparr>params := demo_params\<lparr>audio_out_enabled := False\<rparr>\<rparr>)
      = Some (Inr (demo_started\<lparr>params := demo_params\<lparr>audio_out_enabled := False\<rparr>\<rparr>))
   \<and> \<not> video_out_enabled (params demo_started)
   \<and> is_image \<lparr>frame_id = 2, pts = None, body = SpriteFrame []\<rparr>
   \<and> process_frame default_hooks \<lparr>frame_id = 2, pts = None, body = SpriteFrame []\<rparr> DOWNSTREAM
        demo_started = Some (Inr demo_started)"
  using disabled_media_dropped [of "demo_started\<lparr>params := demo_params\<lparr>audio_out_enabled := False\<rparr>\<rparr>"
      "audio_frame 1 TTSAudioRawFrame [1, 2, 3]" default_hooks DOWNSTREAM]
    disabled_media_dropped [of demo_started "\<lparr>frame_id = 2, pts = None, body = SpriteFrame []\<rparr>"
      default_hooks DOWNSTREAM]
  by (simp add: is_audio_def is_image_def audio_frame_def demo_started_def demo_params_def init_def)

section \<open>Speaking state\<close>

lemma started_eq:
  "bot_started_speaking st =
     (if bot_speaking st then st
      else st\<lparr>id_counter := id_counter st + 2,
              pushed := pushed st @
                [(\<lparr>frame_id = id_counter st, pts = None, body = BotStartedSpeakingFrame\<rparr>, DOWNSTREAM),
                 (\<lparr>frame_id = id_counter st + 1, pts = None, body = BotStartedSpeakingFrame\<rparr>, UPSTREAM)],
              bot_speaking := True\<rparr>)"
  by (simp add: bot_started_speaking_def new_frame_def push_frame_def)

lemma stopped_eq:
  "bot_stopped_speaking st =
     (if bot_speaking st then
        st\<lparr>id_counter := id_counter st + 2,
           pushed := pushed st @
             [(\<lparr>frame_id = id_counter st, pts = None, body = BotStoppedSpeakingFrame\<rparr>, DOWNSTREAM),
              (\<lparr>frame_id = id_counter st + 1, pts = None, body = BotStoppedSpeakingFrame\<rparr>, UPSTREAM)],
           bot_speaking := False, audio_buffer := []\<rparr>
      else st)"
  by (simp add: bot_stopped_speaking_def new_frame_def push_frame_def)


lemma transitions_append: "transitions (ps @ qs) = transitions ps @ transitions qs"
  by (simp add: transitions_def)

lemma started_transitions:
  "\<not> bot_speaking st \<Longrightarrow>
     transitions (pushed (bot_started_speaking st)) = transitions (pushed st) @ [BotStartedSpeakingFrame]
     \<and> bot_speaking (bot_started_speaking st)"
  by (simp add: started_eq transitions_append) (simp add: transitions_def is_transition_def)

lemma stopped_transitions:
  "bot_speaking st \<Longrightarrow>
     transitions (pushed (bot_stopped_speaking st)) = transitions (pushed st) @ [BotStoppedSpeakingFrame]
     \<and> \<not> bot_speaking (bot_stopped_speaking st)"
  by (simp add: stopped_eq transitions_append) (simp add: transitions_def is_transition_def)

lemma speaking_call_step:
  fixes c st
  defines "st1 \<equiv> (case c of Started \<Rightarrow> bot_started_speaking st | Stopped \<Rightarrow> bot_stopped_speaking st)"
  shows "st1 = st \<or>
     (bot_speaking st1 = (\<not> bot_speaking st) \<and>
      transitions (pushed st1) = transitions (pushed st) @
           [if bot_speaking st then BotStoppedSpeakingFrame else BotStartedSpeakingFrame])"
proof (cases c)
  case Started
  show ?thesis
  proof (cases "bot_speaking st")
    case True
    then show ?thesis by (simp add: st1_def Started started_eq)
  next
    case False
    with started_transitions [of st] show ?thesis by (simp add: st1_def Started)
  qed
next
  case Stopped
  show ?thesis
  proof (cases "bot_speaking st")
    case False
    then show ?thesis by (simp add: st1_def Stopped stopped_eq)
  next
    case True
    with stopped_transitions [of st] show ?thesis by (simp add: st1_def Stopped)
  qed
qed


lemma speaking_calls_Cons:
  "speaking_calls (c # cs) st =
     speaking_calls cs (case c of Started \<Rightarrow> bot_started_speaking st | Stopped \<Rightarrow> bot_stopped_speaking st)"
  by (cases c) simp_all

lemma speaking_calls_alternate:
  "\<exists>ts. transitions (pushed (speaking_calls cs st)) = transitions (pushed st) @ ts
     \<and> alternating (bot_speaking st) ts
     \<and> bot_speaking (speaking_calls cs st) = (even (length ts) = bot_speaking st)"
proof (induction cs arbitrary: st)
  case Nil
  show ?case by (rule exI [of _ "[]"]) simp
next
  case (Cons c cs)
  define st1 where "st1 = (case c of Started \<Rightarrow> bot_started_speaking st | Stopped \<Rightarrow> bot_stopped_speaking st)"
  have run: "speaking_calls (c # cs) st = speaking_calls cs st1"
    by (simp only: speaking_calls_Cons st1_def)
  from Cons [of st1] obtain ts where
    ts: "transitions (pushed (speaking_calls cs st1)) = transitions (pushed st1) @ ts"
        "alternating (bot_speaking st1) ts"
        "bot_speaking (speaking_calls cs st1) = (even (length ts) = bot_speaking st1)"
    by blast
  from speaking_call_step [where c = c and st = st] have
    "st1 = st \<or>
     (bot_speaking st1 = (\<not> bot_speaking st) \<and>
      transitions (pushed st1) = transitions (pushed st) @
           [if bot_speaking st then BotStoppedSpeakingFrame else BotStartedSpeakingFrame])"
    by (simp only: st1_def)
  then show ?case
  proof
    assume "st1 = st"
    with ts show ?thesis by (simp only: run) blast
  next
    assume flip: "bot_speaking st1 = (\<not> bot_speaking st) \<and>
      transitions (pushed st1) = transitions (pushed st) @
           [if bot_speaking st then BotStoppedSpeakingFrame else BotStartedSpeakingFrame]"
    let ?x = "if bot_speaking st then BotStoppedSpeakingFrame else BotStartedSpeakingFrame"
    have a: "transitions (pushed (speaking_calls cs st1)) = transitions (pushed st) @ (?x # ts)"
      using ts(1) flip by simp
    have b: "alternating (bot_speaking st) (?x # ts)"
      using ts(2) flip by simp
    have c: "bot_speaking (speaking_calls cs st1) = (even (length (?x # ts)) = bot_speaking st)"
      using ts(3) flip by auto
    show ?thesis
      unfolding run using a b c by blast
  qed
qed

text \<open>
  Claim C7. Speaking notifications are edge-triggered on the flag. A call of
  \<^verbatim>\<open>_bot_started_speaking\<close> while the flag is set, or of
  \<^verbatim>\<open>_bot_stopped_speaking\<close> while it is clear, changes nothing and pushes nothing.
  Otherwise the call pushes its frame once downstream and once upstream and flips the
  flag. So over any sequence of calls the transitions emitted alternate, beginning with
  the one opposite to the flag: one start per speaking episode, one stop per silence
  episode, and the flag at the end is the parity of their number.
\<close>

theorem speaking_transitions_edge_triggered:
  "(bot_speaking st \<longrightarrow> bot_started_speaking st = st)
   \<and> (\<not> bot_speaking st \<longrightarrow> bot_stopped_speaking st = st)
   \<and> (\<not> bot_speaking st \<longrightarrow>
        bot_speaking (bot_started_speaking st)
        \<and> pushed (bot_started_speaking st) = pushed st @
            [(\<lparr>frame_id = id_counter st, pts = None, body = BotStartedSpeakingFrame\<rparr>, DOWNSTREAM),
             (\<lparr>frame_id = id_counter st + 1, pts = None, body = BotStartedSpeakingFrame\<rparr>, UPSTREAM)])
   \<and> (bot_speaking st \<longrightarrow>
        \<not> bot_speaking (bot_stopped_speaking st)
        \<and> pushed (bot_stopped_speaking st) = pushed st @
            [(\<lparr>frame_id = id_counter st, pts = None, body = BotStoppedSpeakingFrame\<rparr>, DOWNSTREAM),
             (\<lparr>frame_id = id_counter st + 1, pts = None, body = BotStoppedSpeakingFrame\<rparr>, UPSTREAM)])
   \<and> (\<exists>ts. transitions (pushed (speaking_calls cs st)) = transitions (pushed st) @ ts
         \<and> alternating (bot_speaking st) ts
         \<and> bot_speaking (speaking_calls cs st) = (even (length ts) = bot_speaking st))"
proof -
  have a: "bot_speaking st \<longrightarrow> bot_started_speaking st = st"
    by (simp add: started_eq)
  have b: "\<not> bot_speaking st \<longrightarrow> bot_stopped_speaking st = st"
    by (simp add: stopped_eq)
  have c: "\<not> bot_speaking st \<longrightarrow>
        bot_speaking (bot_started_speaking st)
        \<and> pushed (bot_started_speaking st) = pushed st @
            [(\<lparr>frame_id = id_counter st, pts = None, body = BotStartedSpeakingFrame\<rparr>, DOWNSTREAM),
             (\<lparr>frame_id = id_counter st + 1, pts = None, body = BotStartedSpeakingFrame\<rparr>, UPSTREAM)]"
    by (simp add: started_eq)
  have d: "bot_speaking st \<longrightarrow>
        \<not> bot_speaking (bot_stopped_speaking st)
        \<and> pushed (bot_stopped_speaking st) = pushed st @
            [(\<lparr>frame_id = id_counter st, pts = None, body = BotStoppedSpeakingFrame\<rparr>, DOWNSTREAM),
             (\<lparr>frame_id = id_counter st + 1, pts = None, body = BotStoppedSpeakingFrame\<rparr>, UPSTREAM)]"
    by (simp add: stopped_eq)
  from a b c d speaking_calls_alternate [of cs st] show ?thesis
    by blast
qed

theorem speaking_transitions_edge_triggered_witness:
  "\<not> bot_speaking demo_started
   \<and> bot_stopped_speaking demo_started = demo_started
   \<and> bot_speaking (bot_started_speaking demo_started)
   \<and> bot_speaking (demo_started\<lparr>bot_speaking := True\<rparr>)
   \<and> bot_started_speaking (demo_started\<lparr>bot_speaking := True\<rparr>) = demo_started\<lparr>bot_speaking := True\<rparr>
   \<and> \<not> bot_speaking (bot_stopped_speaking (demo_started\<lparr>bot_speaking := True\<rparr>))
   \<and> (\<exists>ts. transitions (pushed (speaking_calls [Started, Started, Stopped, Stopped, Started] demo_started))
          = transitions (pushed demo_started) @ ts
        \<and> alternating (bot_speaking demo_started) ts)"
proof -
  have s: "\<not> bot_speaking demo_started" "bot_speaking (demo_started\<lparr>bot_speaking := True\<rparr>)"
    by (simp_all add: demo_started_def init_def)
  from s speaking_transitions_edge_triggered [of demo_started "[Started, Started, Stopped, Stopped, Started]"]
    speaking_transitions_edge_triggered [of "demo_started\<lparr>bot_speaking := True\<rparr>" "[]"]
  show ?thesis by blast
qed

section \<open>Interruptions\<close>

lemma recreate_tasks:
  fixes st
  defines "st1 \<equiv> create_sink_tasks (create_video_task (cancel_video_task (cancel_sink_tasks st)))"
  shows "sink_task st1 = Some (if video_out_enabled (params st) then task_counter st + 1 else task_counter st)"
    and "sink_clock_task st1 = Some (if video_out_enabled (params st) then task_counter st + 2 else task_counter st + 1)"
    and "sink_queue st1 = Some []" and "sink_clock_queue st1 = Some []"
    and "video_out_enabled (params st) \<Longrightarrow> video_out_task st1 = Some (task_counter st)"
    and "video_out_enabled (params st) \<Longrightarrow> video_out_queue st1 = Some []"
    and "cancelled_tasks st1 = cancelled_tasks st @ task_list (sink_task st)
           @ task_list (sink_clock_task st)
           @ (if video_out_enabled (params st) then task_list (video_out_task st) else [])"
    and "bot_speaking st1 = bot_speaking st" and "audio_buffer st1 = audio_buffer st"
    and "pushed st1 = pushed st" and "id_counter st1 = id_counter st"
  unfolding st1_def
  by (simp_all add: create_sink_tasks_def create_video_task_def cancel_video_task_def
      cancel_sink_tasks_def task_list_def Let_def split: option.splits)


text \<open>
  Claim C3, as the code has it. On a start-interruption frame with interruptions allowed,
  the FIFO and the scheduled task (and the video task when video output is enabled) are
  cancelled if they exist and created anew with empty queues; the stop-speaking
  transition is pushed, downstream and upstream, exactly when the bot was speaking; and
  the accumulator is emptied in that case only: when the bot was not speaking it keeps
  its bytes.
\<close>

theorem interruption_resets:
  assumes "interruptions_allowed st" and "body f = StartInterruptionFrame"
  shows "sink_task (handle_interruptions f st)
           = Some (if video_out_enabled (params st) then task_counter st + 1 else task_counter st)
     \<and> sink_clock_task (handle_interruptions f st)
           = Some (if video_out_enabled (params st) then task_counter st + 2 else task_counter st + 1)
     \<and> sink_queue (handle_interruptions f st) = Some []
     \<and> sink_clock_queue (handle_interruptions f st) = Some []
     \<and> (video_out_enabled (params st) \<longrightarrow>
          video_out_task (handle_interruptions f st) = Some (task_counter st)
          \<and> video_out_queue (handle_interruptions f st) = Some [])
     \<and> cancelled_tasks (handle_interruptions f st)
           = cancelled_tasks st @ task_list (sink_task st) @ task_list (sink_clock_task st)
             @ (if video_out_enabled (params st) then task_list (video_out_task st) else [])
     \<and> \<not> bot_speaking (handle_interruptions f st)
     \<and> audio_buffer (handle_interruptions f st) = (if bot_speaking st then [] else audio_buffer st)
     \<and> pushed (handle_interruptions f st) = pushed st @
           (if bot_speaking st
            then [(\<lparr>frame_id = id_counter st, pts = None, body = BotStoppedSpeakingFrame\<rparr>, DOWNSTREAM),
                  (\<lparr>frame_id = id_counter st + 1, pts = None, body = BotStoppedSpeakingFrame\<rparr>, UPSTREAM)]
            else [])"
proof -
  define st1 where "st1 = create_sink_tasks (create_video_task (cancel_video_task (cancel_sink_tasks st)))"
  have h: "handle_interruptions f st = bot_stopped_speaking st1"
    using assms by (simp add: handle_interruptions_def st1_def)
  note r = recreate_tasks [of st, folded st1_def]
  show ?thesis
    unfolding h by (simp add: stopped_eq r)
qed

theorem interruption_resets_witness:
  "interruptions_allowed (demo_started\<lparr>interruptions_allowed := True, bot_speaking := True,
       audio_buffer := [1, 2, 3]\<rparr>)
   \<and> body \<lparr>frame_id = 9, pts = None, body = StartInterruptionFrame\<rparr> = StartInterruptionFrame
   \<and> sink_task (handle_interruptions \<lparr>frame_id = 9, pts = None, body = StartInterruptionFrame\<rparr>
        (demo_started\<lparr>interruptions_allowed := True, bot_speaking := True,
           audio_buffer := [1, 2, 3]\<rparr>)) = Some 2
   \<and> cancelled_tasks (handle_interruptions \<lparr>frame_id = 9, pts = None, body = StartInterruptionFrame\<rparr>
        (demo_started\<lparr>interruptions_allowed := True, bot_speaking := True,
           audio_buffer := [1, 2, 3]\<rparr>)) = [0, 1]
   \<and> audio_buffer (handle_interruptions \<lparr>frame_id = 9, pts = None, body = StartInterruptionFrame\<rparr>
        (demo_started\<lparr>interruptions_allowed := True, bot_speaking := True,
           audio_buffer := [1, 2, 3]\<rparr>)) = []"
  using interruption_resets [of "demo_started\<lparr>interruptions_allowed := True, bot_speaking := True,
       audio_buffer := [1, 2, 3]\<rparr>" "\<lparr>frame_id = 9, pts = None, body = StartInterruptionFrame\<rparr>"]
  by (simp add: demo_started_def init_def demo_params_def task_list_def)

text \<open>
  The accumulator is not emptied in every case: three bytes of audio, less than a chunk,
  stay in the accumulator without the bot speaking, and are still there after the
  interruption.
\<close>

theorem interruption_keeps_buffer_when_silent:
  "handle_audio (resample default_hooks) (audio_frame 1 TTSAudioRawFrame [1, 2, 3])
       (demo_started\<lparr>interruptions_allowed := True\<rparr>)
     = Some (Inr (demo_started\<lparr>interruptions_allowed := True, audio_buffer := [1, 2, 3]\<rparr>))
   \<and> interruptions_allowed (demo_started\<lparr>interruptions_allowed := True, audio_buffer := [1, 2, 3]\<rparr>)
   \<and> \<not> bot_speaking (demo_started\<lparr>interruptions_allowed := True, audio_buffer := [1, 2, 3]\<rparr>)
   \<and> audio_buffer (handle_interruptions \<lparr>frame_id = 9, pts = None, body = StartInterruptionFrame\<rparr>
        (demo_started\<lparr>interruptions_allowed := True, audio_buffer := [1, 2, 3]\<rparr>)) = [1, 2, 3]"
proof -
  have "handle_audio (resample default_hooks) (audio_frame 1 TTSAudioRawFrame [1, 2, 3])
       (demo_started\<lparr>interruptions_allowed := True\<rparr>)
     = Some (Inr (demo_started\<lparr>interruptions_allowed := True, audio_buffer := [1, 2, 3]\<rparr>))"
    apply (simp add: handle_audio_def audio_frame_def demo_started_def init_def demo_params_def
        default_hooks_def)
    apply (subst chunk_loop.simps)
    apply simp
    done
  moreover have "audio_buffer (handle_interruptions \<lparr>frame_id = 9, pts = None, body = StartInterruptionFrame\<rparr>
        (demo_started\<lparr>interruptions_allowed := True, audio_buffer := [1, 2, 3]\<rparr>)) = [1, 2, 3]"
    by (simp add: handle_interruptions_def stopped_eq recreate_tasks demo_started_def init_def)
  ultimately show ?thesis
    by (simp add: demo_started_def init_def)
qed

section \<open>The live video pacer\<close>

lemma draw_image_ok:
  assumes "body im = OutputImageRawFrame img"
    and "write_raw_video_frame h (if image_size img \<noteq> (video_out_width (params st), video_out_height (params st))
            then resize h img (video_out_width (params st), video_out_height (params st)) else img) = None"
  shows "\<exists>st'. draw_image h im st = Inr st'
     \<and> video_log st' = video_log st @
          [Wrote (if image_size img \<noteq> (video_out_width (params st), video_out_height (params st))
           then resize h img (video_out_width (params st), video_out_height (params st)) else img)]
     \<and> video_out_start_time st' = video_out_start_time st
     \<and> video_out_frame_index st' = video_out_frame_index st
     \<and> video_out_queue st' = video_out_queue st"
  using assms by (auto simp: draw_image_def Let_def)

text \<open>
  Claim C5, as the code has it. For an image that is not the first of a run (the baseline
  \<open>s\<close> is set), the pacer reads the clock and computes, in floats,
  \<open>delay_time = frame_duration + frame_index * frame_duration - (now - s)\<close>. When
  \<open>|delay_time|\<close> exceeds \<open>frame_duration * 5\<close> it reads the clock again, makes that the
  baseline and sets the index to zero; otherwise, when \<open>delay_time\<close> is positive, it
  sleeps exactly \<open>delay_time\<close> and advances the index; otherwise it does neither. In
  every branch the image is written after that, as the last event of the call, resized
  when its size is not the configured one.
\<close>

theorem live_pacer_timing:
  assumes "video_out_queue st = Some (im # q)" and "body im = OutputImageRawFrame img"
    and "video_out_start_time st = Some s" and "s \<noteq> 0"
    and "video_out_frame_reset st = fmul fl (video_out_frame_duration st) 5"
    and "write_raw_video_frame h (if image_size img \<noteq> (video_out_width (params st), video_out_height (params st))
            then resize h img (video_out_width (params st), video_out_height (params st)) else img) = None"
  shows "delay_time fl t st
           = fsub fl (fadd fl (video_out_frame_duration st)
                        (fmul fl (real_of_int (video_out_frame_index st)) (video_out_frame_duration st)))
                     (fsub fl (time_elapsed t) s)
     \<and> (\<exists>st'. video_out_is_live_handler fl h t st = Inr st'
         \<and> video_out_queue st' = Some q
         \<and> (if fmul fl (video_out_frame_duration st) 5 < \<bar>delay_time fl t st\<bar>
             then video_out_start_time st' = Some (time_reset t) \<and> video_out_frame_index st' = 0
                  \<and> video_log st' = video_log st @
                       [TimeRead (time_elapsed t), TimeRead (time_reset t),
                        Wrote (if image_size img \<noteq> (video_out_width (params st), video_out_height (params st))
                               then resize h img (video_out_width (params st), video_out_height (params st))
                               else img)]
             else if 0 < delay_time fl t st
             then video_out_start_time st' = Some s
                  \<and> video_out_frame_index st' = video_out_frame_index st + 1
                  \<and> video_log st' = video_log st @
                       [TimeRead (time_elapsed t), Slept (delay_time fl t st),
                        Wrote (if image_size img \<noteq> (video_out_width (params st), video_out_height (params st))
                               then resize h img (video_out_width (params st), video_out_height (params st))
                               else img)]
             else video_out_start_time st' = Some s
                  \<and> video_out_frame_index st' = video_out_frame_index st
                  \<and> video_log st' = video_log st @
                       [TimeRead (time_elapsed t),
                        Wrote (if image_size img \<noteq> (video_out_width (params st), video_out_height (params st))
                               then resize h img (video_out_width (params st), video_out_height (params st))
                               else img)]))"
proof -
  define d where "d = delay_time fl t st"
  define w where "w = (if image_size img \<noteq> (video_out_width (params st), video_out_height (params st))
            then resize h img (video_out_width (params st), video_out_height (params st)) else img)"
  have dv: "d = fsub fl (fadd fl (video_out_frame_duration st)
                        (fmul fl (real_of_int (video_out_frame_index st)) (video_out_frame_duration st)))
                     (fsub fl (time_elapsed t) s)"
    using assms(3) by (simp add: delay_time_def d_def Let_def)
  define st1 where "st1 = st\<lparr>video_out_queue := Some q\<rparr>"
  have sb: "set_baseline t (st\<lparr>video_out_queue := Some q\<rparr>) = st1"
    using assms(3,4) by (simp add: set_baseline_def first_image_def st1_def)
  have dt: "delay_time fl t st1 = d"
    by (simp add: delay_time_def st1_def d_def Let_def)
  define st3 where "st3 = (if video_out_frame_reset st < \<bar>d\<bar>
       then st1\<lparr>video_out_start_time := Some (time_reset t), video_out_frame_index := 0,
                video_log := video_log st @ [TimeRead (time_elapsed t), TimeRead (time_reset t)]\<rparr>
       else if 0 < d
       then st1\<lparr>video_log := video_log st @ [TimeRead (time_elapsed t), Slept d],
                video_out_frame_index := video_out_frame_index st + 1\<rparr>
       else st1\<lparr>video_log := video_log st @ [TimeRead (time_elapsed t)]\<rparr>)"
  have h: "video_out_is_live_handler fl h t st = draw_image h im st3"
    using assms(1) by (simp add: video_out_is_live_handler_def sb dt Let_def st3_def) (simp add: st1_def)
  have p: "params st3 = params st" "video_out_queue st3 = Some q"
    by (simp_all add: st3_def st1_def)
  have wr: "write_raw_video_frame h (if image_size img \<noteq> (video_out_width (params st3), video_out_height (params st3))
            then resize h img (video_out_width (params st3), video_out_height (params st3)) else img) = None"
    using assms(6) by (simp only: p)
  from draw_image_ok [OF assms(2) wr] obtain st' where
    r: "draw_image h im st3 = Inr st'"
       "video_log st' = video_log st3 @ [Wrote w]"
       "video_out_start_time st' = video_out_start_time st3"
       "video_out_frame_index st' = video_out_frame_index st3"
       "video_out_queue st' = video_out_queue st3"
    unfolding p w_def by blast
  have t: "if fmul fl (video_out_frame_duration st) 5 < \<bar>d\<bar>
         then video_out_start_time st3 = Some (time_reset t) \<and> video_out_frame_index st3 = 0
              \<and> video_log st3 = video_log st @ [TimeRead (time_elapsed t), TimeRead (time_reset t)]
         else if 0 < d
         then video_out_start_time st3 = Some s
              \<and> video_out_frame_index st3 = video_out_frame_index st + 1
              \<and> video_log st3 = video_log st @ [TimeRead (time_elapsed t), Slept d]
         else video_out_start_time st3 = Some s
              \<and> video_out_frame_index st3 = video_out_frame_index st
              \<and> video_log st3 = video_log st @ [TimeRead (time_elapsed t)]"
    using assms(3,5) by (simp add: st3_def st1_def)
  have "\<exists>st'. video_out_is_live_handler fl h t st = Inr st'
         \<and> video_out_queue st' = Some q
         \<and> (if fmul fl (video_out_frame_duration st) 5 < \<bar>d\<bar>
             then video_out_start_time st' = Some (time_reset t) \<and> video_out_frame_index st' = 0
                  \<and> video_log st' = video_log st @
                       [TimeRead (time_elapsed t), TimeRead (time_reset t), Wrote w]
             else if 0 < d
             then video_out_start_time st' = Some s
                  \<and> video_out_frame_index st' = video_out_frame_index st + 1
                  \<and> video_log st' = video_log st @ [TimeRead (time_elapsed t), Slept d, Wrote w]
             else video_out_start_time st' = Some s
                  \<and> video_out_frame_index st' = video_out_frame_index st
                  \<and> video_log st' = video_log st @ [TimeRead (time_elapsed t), Wrote w])"
    apply (rule exI [of _ st'])
    using r t h p by simp
  with dv show ?thesis
    unfolding d_def w_def by blast
qed

text \<open>
  The second image, 1.5 s after the baseline at one frame per second: \<open>delay_time\<close> is
  0.5, so the pacer sleeps 0.5 s, advances the index to 2 and then writes the image.
\<close>

lemma demo_video_sleep:
  "video_out_is_live_handler exact_floats default_hooks
       \<lparr>time_baseline = 23 / 2, time_elapsed = 23 / 2, time_reset = 23 / 2\<rparr> demo_video_next
     = Inr (demo_video_next\<lparr>video_out_queue := Some [], video_out_frame_index := 2,
          video_log := [TimeRead 10, TimeRead 10, Slept 1,
            Wrote \<lparr>image_bytes = [], image_size = (1024, 768), image_format = ''RGB''\<rparr>,
            TimeRead (23 / 2), Slept (1 / 2),
            Wrote \<lparr>image_bytes = [], image_size = (1024, 768), image_format = ''RGB''\<rparr>]\<rparr>)"
  by (simp add: video_out_is_live_handler_def set_baseline_def first_image_def delay_time_def
      draw_image_def demo_video_next_def demo_video_def demo_image_def init_def demo_params_def
      default_hooks_def exact_floats_def Let_def)

theorem live_pacer_timing_witness:
  "video_out_queue demo_video_next = Some (demo_image # [])
   \<and> body demo_image = OutputImageRawFrame \<lparr>image_bytes = [], image_size = (1024, 768), image_format = ''RGB''\<rparr>
   \<and> video_out_start_time demo_video_next = Some 10 \<and> (10::real) \<noteq> 0
   \<and> video_out_frame_reset demo_video_next
        = fmul exact_floats (video_out_frame_duration demo_video_next) 5
   \<and> delay_time exact_floats \<lparr>time_baseline = 23 / 2, time_elapsed = 23 / 2, time_reset = 23 / 2\<rparr>
        demo_video_next = 1 / 2
   \<and> video_out_is_live_handler exact_floats default_hooks
        \<lparr>time_baseline = 23 / 2, time_elapsed = 23 / 2, time_reset = 23 / 2\<rparr> demo_video_next
      = Inr (demo_video_next\<lparr>video_out_queue := Some [], video_out_frame_index := 2,
          video_log := [TimeRead 10, TimeRead 10, Slept 1,
            Wrote \<lparr>image_bytes = [], image_size = (1024, 768), image_format = ''RGB''\<rparr>,
            TimeRead (23 / 2), Slept (1 / 2),
            Wrote \<lparr>image_bytes = [], image_size = (1024, 768), image_format = ''RGB''\<rparr>]\<rparr>)
   \<and> (\<exists>st'. video_out_is_live_handler exact_floats default_hooks
          \<lparr>time_baseline = 23 / 2, time_elapsed = 23 / 2, time_reset = 23 / 2\<rparr> demo_video_next = Inr st'
        \<and> video_out_queue st' = Some []
        \<and> video_out_start_time st' = Some 10 \<and> video_out_frame_index st' = 2
        \<and> video_log st' = video_log demo_video_next @
             [TimeRead (23 / 2), Slept (1 / 2),
              Wrote \<lparr>image_bytes = [], image_size = (1024, 768), image_format = ''RGB''\<rparr>])"
proof -
  let ?t = "\<lparr>time_baseline = 23 / 2, time_elapsed = 23 / 2, time_reset = 23 / 2\<rparr>"
  let ?img = "\<lparr>image_bytes = [], image_size = (1024, 768), image_format = ''RGB''\<rparr>"
  have a: "video_out_queue demo_video_next = Some (demo_image # [])"
    "body demo_image = OutputImageRawFrame ?img"
    "video_out_start_time demo_video_next = Some 10" "(10::real) \<noteq> 0"
    "video_out_frame_reset demo_video_next
        = fmul exact_floats (video_out_frame_duration demo_video_next) 5"
    by (simp_all add: demo_video_next_def demo_video_def demo_image_def init_def exact_floats_def)
  have v: "video_out_frame_index demo_video_next = 1" "video_out_frame_duration demo_video_next = 1"
    "video_out_width (params demo_video_next) = 1024" "video_out_height (params demo_video_next) = 768"
    "image_size ?img = (1024, 768)"
    by (simp_all add: demo_video_next_def demo_video_def init_def demo_params_def)
  have b: "write_raw_video_frame default_hooks x = None" for x
    by (simp add: default_hooks_def)
  note t = live_pacer_timing [OF a b, of ?t]
  have d: "delay_time exact_floats ?t demo_video_next = 1 / 2"
    by (simp add: delay_time_def demo_video_next_def demo_video_def init_def exact_floats_def Let_def)
  from t [unfolded d] have r: "\<exists>st'. video_out_is_live_handler exact_floats default_hooks ?t demo_video_next = Inr st'
        \<and> video_out_queue st' = Some []
        \<and> video_out_start_time st' = Some 10 \<and> video_out_frame_index st' = 2
        \<and> video_log st' = video_log demo_video_next @ [TimeRead (23 / 2), Slept (1 / 2), Wrote ?img]"
    by (simp add: v exact_floats_def)
  from a d demo_video_sleep r show ?thesis by (intro conjI)
qed

text \<open>
  The drift the pacer tests is not the one between \<open>frame index \<times> frame period\<close> and the
  elapsed time. At one frame per second, the first image (at time 10) sets the baseline
  and the index becomes 1; a second image at time 16.5 has \<open>|1 \<times> 1 - 6.5| = 5.5 > 5\<close>, and
  yet the pacer does not reset: baseline and index stay, and nothing is slept. Every
  number in this run is a float and every operation on them is exact.
\<close>

theorem live_pacer_no_reset_at_index_drift:
  "video_out_task_init exact_floats
       ((init (demo_params\<lparr>video_out_enabled := True, video_out_is_live := True,
                             video_out_framerate := 1\<rparr>))
          \<lparr>video_out_queue := Some [demo_image, demo_image], video_out_task := Some 0,
           task_counter := 1\<rparr>) = Inr demo_video
   \<and> video_out_is_live_handler exact_floats default_hooks
       \<lparr>time_baseline = 10, time_elapsed = 10, time_reset = 10\<rparr> demo_video = Inr demo_video_next
   \<and> 5 * video_out_frame_duration demo_video_next
       < \<bar>real_of_int (video_out_frame_index demo_video_next) * video_out_frame_duration demo_video_next
          - (33 / 2 - 10)\<bar>
   \<and> video_out_is_live_handler exact_floats default_hooks
       \<lparr>time_baseline = 33 / 2, time_elapsed = 33 / 2, time_reset = 33 / 2\<rparr> demo_video_next
     = Inr (demo_video_next\<lparr>video_out_queue := Some [],
          video_log := [TimeRead 10, TimeRead 10, Slept 1,
            Wrote \<lparr>image_bytes = [], image_size = (1024, 768), image_format = ''RGB''\<rparr>,
            TimeRead (33 / 2),
            Wrote \<lparr>image_bytes = [], image_size = (1024, 768), image_format = ''RGB''\<rparr>]\<rparr>)
   \<and> video_out_start_time demo_video_next = Some 10
   \<and> video_out_frame_index demo_video_next = 1"
proof -
  have c0: "video_out_task_init exact_floats
       ((init (demo_params\<lparr>video_out_enabled := True, video_out_is_live := True,
                             video_out_framerate := 1\<rparr>))
          \<lparr>video_out_queue := Some [demo_image, demo_image], video_out_task := Some 0,
           task_counter := 1\<rparr>) = Inr demo_video"
    by (simp add: video_out_task_init_def demo_video_def init_def demo_params_def exact_floats_def)
  have c1: "video_out_is_live_handler exact_floats default_hooks
       \<lparr>time_baseline = 10, time_elapsed = 10, time_reset = 10\<rparr> demo_video = Inr demo_video_next"
    by (simp add: video_out_is_live_handler_def set_baseline_def first_image_def delay_time_def
        draw_image_def demo_video_next_def demo_video_def demo_image_def init_def demo_params_def
        default_hooks_def exact_floats_def Let_def)
  have c2: "5 * video_out_frame_duration demo_video_next
       < \<bar>real_of_int (video_out_frame_index demo_video_next) * video_out_frame_duration demo_video_next
          - (33 / 2 - 10)\<bar>"
    by (simp add: demo_video_next_def demo_video_def init_def)
  have c3: "video_out_is_live_handler exact_floats default_hooks
       \<lparr>time_baseline = 33 / 2, time_elapsed = 33 / 2, time_reset = 33 / 2\<rparr> demo_video_next
     = Inr (demo_video_next\<lparr>video_out_queue := Some [],
          video_log := [TimeRead 10, TimeRead 10, Slept 1,
            Wrote \<lparr>image_bytes = [], image_size = (1024, 768), image_format = ''RGB''\<rparr>,
            TimeRead (33 / 2),
            Wrote \<lparr>image_bytes = [], image_size = (1024, 768), image_format = ''RGB''\<rparr>]\<rparr>)"
    by (simp add: video_out_is_live_handler_def set_baseline_def first_image_def delay_time_def
        draw_image_def demo_video_next_def demo_video_def demo_image_def init_def demo_params_def
        default_hooks_def exact_floats_def Let_def)
  have c4: "video_out_start_time demo_video_next = Some 10"
    "video_out_frame_index demo_video_next = 1"
    by (simp_all add: demo_video_next_def)
  from c0 c1 c2 c3 c4 show ?thesis by (intro conjI)
qed

section \<open>The scheduled delivery task\<close>

lemma pq_min_in: "pq_min m xs \<in> set (m # xs)"
  by (induction xs arbitrary: m) auto

lemma pq_min_least: "y \<in> set (m # xs) \<Longrightarrow> \<not> entry_less y (pq_min m xs)"
proof (induction xs arbitrary: m y)
  case Nil
  then show ?case by (simp add: entry_less_def)
next
  case (Cons x xs)
  let ?m = "if entry_less x m then x else m"
  have r: "\<not> entry_less ?m (pq_min ?m xs)"
    using Cons.IH [where m = ?m and y = ?m] by simp
  show ?case
  proof (cases "y \<in> set xs")
    case True
    then show ?thesis using Cons.IH [where m = ?m and y = y] by simp
  next
    case False
    with Cons.prems have "y = m \<or> y = x" by auto
    then show ?thesis
      using r by (auto simp: entry_less_def split: if_splits)
  qed
qed

lemma pq_get_Some:
  assumes "pq_get q = Some (m, q1)"
  shows "m \<in> set q" and "q1 = remove1 m q" and "length q = Suc (length q1)"
    and "\<forall>y \<in> set q. \<not> entry_less y m"
proof -
  from assms obtain x xs where q: "q = x # xs" and m: "m = pq_min x xs" and q1: "q1 = remove1 m q"
    by (auto simp: pq_get_def split: list.splits)
  show "m \<in> set q" using pq_min_in [of x xs] q m by simp
  then show "length q = Suc (length q1)"
    using q1 by (simp add: length_remove1) (cases q; simp)
  show "q1 = remove1 m q" by fact
  show "\<forall>y \<in> set q. \<not> entry_less y m"
    using pq_min_least [of _ x xs] q m by blast
qed

lemma pq_get_None: "pq_get q = None \<longleftrightarrow> q = []"
  by (cases q) (simp_all add: pq_get_def)

lemma delivery_order_step:
  "pq_get q = Some (m, q1) \<Longrightarrow> delivery_order q = m # delivery_order q1"
  using pq_get_Some(3) [of q m q1] by (simp add: delivery_order_def)

lemma delivery_order_Nil: "delivery_order [] = []"
  by (simp add: delivery_order_def)


lemma handler_raises: "raises h f = Some e \<Longrightarrow> sink_frame_handler h f st = Inl e"
  by (cases "body f") (simp_all add: raises_def sink_frame_handler_def)

lemma handler_ok:
  assumes "raises h f = None"
  shows "\<exists>st'. sink_frame_handler h f st = Inr st' \<and> pushed st' = pushed st
     \<and> sink_clock_queue st' = sink_clock_queue st \<and> logged st' = logged st
     \<and> sink_queue st' = sink_queue st \<and> params st' = params st
     \<and> bot_speaking st' = bot_speaking st \<and> id_counter st' = id_counter st
     \<and> written_audio st' = written_audio st \<and> clock_sleeps st' = clock_sleeps st"
  using assms by (cases "body f") (simp_all add: raises_def sink_frame_handler_def)

lemma clock_iteration_empty:
  "sink_clock_queue st = Some [] \<Longrightarrow> \<not> cancel_get t \<Longrightarrow> sink_clock_iteration h t st = (st, Running)"
  by (simp add: sink_clock_iteration_def pq_get_def)

lemma clock_iteration_end:
  assumes "sink_clock_queue st = Some q" and "pq_get q = Some ((tm, i, f), q1)"
    and "\<not> cancel_get t" and "body f = EndFrame"
  shows "sink_clock_iteration h t st = (st\<lparr>sink_clock_queue := Some q1\<rparr>, Finished)"
  using assms by (simp add: sink_clock_iteration_def)

lemma clock_iteration_frame:
  assumes "sink_clock_queue st = Some q" and "pq_get q = Some ((tm, i, f), q1)"
    and "quiet t" and "body f \<noteq> EndFrame"
    and "\<And>e. raises h f = Some e \<Longrightarrow> is_exception e"
  shows "\<exists>st'. sink_clock_iteration h t st = (st', Running) \<and> sink_clock_queue st' = Some q1
     \<and> pushed st' = pushed st @ delivered h [(tm, i, f)]
     \<and> logged st' = logged st @ (case raises h f of None \<Rightarrow> [] | Some e \<Rightarrow> [e])"
proof -
  define st2 where "st2 = (if clock_time t < tm
      then st\<lparr>sink_clock_queue := Some q1, clock_sleeps := clock_sleeps st @ [tm - clock_time t]\<rparr>
      else st\<lparr>sink_clock_queue := Some q1\<rparr>)"
  have it: "sink_clock_iteration h t st =
     (case sink_frame_handler h f st2 of
        Inl e \<Rightarrow> if e = CancelledError then (st2, Cancelled)
                 else if is_exception e then (st2\<lparr>logged := logged st2 @ [e]\<rparr>, Running)
                 else (st2, Failed e)
      | Inr st3 \<Rightarrow> (push_frame f DOWNSTREAM st3, Running))"
    using assms(1-4)
    by (cases "clock_time t < tm")
       (simp_all add: sink_clock_iteration_def quiet_def st2_def Let_def split: sum.splits)
  have s2: "sink_clock_queue st2 = Some q1" "pushed st2 = pushed st" "logged st2 = logged st"
    by (simp_all add: st2_def)
  show ?thesis
  proof (cases "raises h f")
    case None
    from handler_ok [OF None, of st2] obtain st3 where
      r: "sink_frame_handler h f st2 = Inr st3" "pushed st3 = pushed st2"
         "sink_clock_queue st3 = sink_clock_queue st2" "logged st3 = logged st2"
      by blast
    show ?thesis
      apply (rule exI [of _ "push_frame f DOWNSTREAM st3"])
      using r s2 None by (simp add: it push_frame_def delivered_def)
  next
    case (Some e)
    then have e: "is_exception e" "e \<noteq> CancelledError"
      using assms(5) by (auto simp: is_exception_def)
    show ?thesis
      apply (rule exI [of _ "st2\<lparr>logged := logged st2 @ [e]\<rparr>"])
      using e s2 Some by (simp add: it handler_raises [OF Some] delivered_def)
  qed
qed


lemma delivered_append: "delivered h (xs @ ys) = delivered h xs @ delivered h ys"
  by (simp add: delivered_def)

lemma clock_handler_step:
  "sink_clock_iteration h t st = (st1, Running) \<Longrightarrow>
     sink_clock_task_handler h (t # ts) st = sink_clock_task_handler h ts st1"
  by simp

lemma clock_handler_stop:
  "sink_clock_iteration h t st = (st1, r) \<Longrightarrow> r \<noteq> Running \<Longrightarrow>
     sink_clock_task_handler h (t # ts) st = (st1, r)"
  by (cases r) simp_all




subsection \<open>Draining the scheduled queue\<close>

lemma clock_run:
  assumes "sink_clock_queue st = Some q" and "\<forall>t \<in> set ts. quiet t"
    and "\<forall>e \<in> set q. \<forall>err. raises h (snd (snd e)) = Some err \<longrightarrow> is_exception err"
  shows "pushed (fst (sink_clock_task_handler h ts st))
           = pushed st @ delivered h (take (length ts) (takeWhile (\<lambda>e. \<not> is_end e) (delivery_order q)))
     \<and> snd (sink_clock_task_handler h ts st)
           = (if length (takeWhile (\<lambda>e. \<not> is_end e) (delivery_order q)) < length ts
                 \<and> length (takeWhile (\<lambda>e. \<not> is_end e) (delivery_order q)) < length (delivery_order q)
              then Finished else Running)"
  using assms
proof (induction ts arbitrary: st q)
  case Nil
  show ?case by (simp add: delivered_def)
next
  case (Cons t ts)
  have qt: "quiet t" "\<not> cancel_get t" "\<forall>t \<in> set ts. quiet t"
    using Cons.prems(2) by (simp_all add: quiet_def)
  show ?case
  proof (cases "pq_get q")
    case None
    then have q: "q = []" by (simp add: pq_get_None)
    have "sink_clock_iteration h t st = (st, Running)"
      using Cons.prems(1) qt(2) q by (simp add: clock_iteration_empty)
    then have "sink_clock_task_handler h (t # ts) st = sink_clock_task_handler h ts st"
      by (rule clock_handler_step)
    with Cons.IH [OF Cons.prems(1) qt(3) Cons.prems(3)] show ?thesis
      by (simp add: q delivery_order_Nil delivered_def)
  next
    case (Some a)
    obtain tm i f q1 where a: "a = ((tm, i, f), q1)"
      by (cases a) auto
    have g: "pq_get q = Some ((tm, i, f), q1)"
      using Some a by simp
    have ord: "delivery_order q = (tm, i, f) # delivery_order q1"
      by (rule delivery_order_step [OF g])
    have sub: "set q1 \<subseteq> set q" "(tm, i, f) \<in> set q"
      using pq_get_Some(1,2) [OF g] set_remove1_subset [of "(tm, i, f)" q] by auto
    show ?thesis
    proof (cases "body f = EndFrame")
      case True
      have "sink_clock_iteration h t st = (st\<lparr>sink_clock_queue := Some q1\<rparr>, Finished)"
        by (rule clock_iteration_end [OF Cons.prems(1) g qt(2) True])
      then have "sink_clock_task_handler h (t # ts) st = (st\<lparr>sink_clock_queue := Some q1\<rparr>, Finished)"
        by (rule clock_handler_stop) simp
      then show ?thesis
        using True by (simp add: ord is_end_def delivered_def)
    next
      case False
      have ben: "\<And>e. raises h f = Some e \<Longrightarrow> is_exception e"
        using bspec [OF Cons.prems(3) sub(2)] by simp
      from clock_iteration_frame [OF Cons.prems(1) g qt(1) False ben] obtain st1 where
        it: "sink_clock_iteration h t st = (st1, Running)" "sink_clock_queue st1 = Some q1"
            "pushed st1 = pushed st @ delivered h [(tm, i, f)]"
        by blast
      have run: "sink_clock_task_handler h (t # ts) st = sink_clock_task_handler h ts st1"
        using it(1) by (rule clock_handler_step)
      have ben1: "\<forall>e \<in> set q1. \<forall>err. raises h (snd (snd e)) = Some err \<longrightarrow> is_exception err"
        using Cons.prems(3) sub(1) by blast
      note IH = Cons.IH [OF it(2) qt(3) ben1]
      have tw: "takeWhile (\<lambda>e. \<not> is_end e) (delivery_order q)
          = (tm, i, f) # takeWhile (\<lambda>e. \<not> is_end e) (delivery_order q1)"
        using False by (simp add: ord is_end_def)
      have d: "delivered h (take (length (t # ts))
              ((tm, i, f) # takeWhile (\<lambda>e. \<not> is_end e) (delivery_order q1)))
          = delivered h [(tm, i, f)]
            @ delivered h (take (length ts) (takeWhile (\<lambda>e. \<not> is_end e) (delivery_order q1)))"
        by (simp add: delivered_def)
      have p: "pushed (fst (sink_clock_task_handler h ts st1))
          = pushed st @ delivered h (take (length (t # ts))
              ((tm, i, f) # takeWhile (\<lambda>e. \<not> is_end e) (delivery_order q1)))"
        using IH [THEN conjunct1] it(3) by (simp only: d append_assoc)
      have s0: "length ((tm, i, f) # xs) < length (t # ts) \<longleftrightarrow> length xs < length ts"
        "length ((tm, i, f) # xs) < length ((tm, i, f) # ys) \<longleftrightarrow> length xs < length ys" for xs ys :: "(int \<times> int \<times> frame) list"
        by simp_all
      have s: "snd (sink_clock_task_handler h ts st1)
           = (if length ((tm, i, f) # takeWhile (\<lambda>e. \<not> is_end e) (delivery_order q1)) < length (t # ts)
                 \<and> length ((tm, i, f) # takeWhile (\<lambda>e. \<not> is_end e) (delivery_order q1))
                     < length ((tm, i, f) # delivery_order q1)
              then Finished else Running)"
        using IH [THEN conjunct2] by (simp only: s0)
      show ?thesis
        using p s unfolding run tw by (simp only: ord)
    qed
  qed
qed

lemma drain_set: "n = length q \<Longrightarrow> set (drain n q) = set q"
proof (induction n arbitrary: q)
  case 0
  then show ?case by simp
next
  case (Suc n)
  then obtain x xs where q: "q = x # xs" by (cases q) auto
  obtain m q1 where g: "pq_get q = Some (m, q1)"
    using q by (simp add: pq_get_def)
  note s = pq_get_Some [OF g]
  have "set (drain n q1) = set q1"
    using Suc.IH [of q1] Suc.prems s(3) by simp
  moreover have "insert m (set q1) = set q"
  proof -
    have sub: "set (remove1 m q) \<subseteq> set q" by (rule set_remove1_subset)
    have sup: "z \<in> set (remove1 m q)" if "z \<in> set q" "z \<noteq> m" for z
      using that by (simp add: in_set_remove1)
    from sub sup s(1) show ?thesis unfolding s(2) by blast
  qed
  ultimately show ?case by (simp add: g)
qed

lemma delivery_order_set: "set (delivery_order q) = set q"
  by (simp add: delivery_order_def drain_set)

lemma drain_length: "n = length q \<Longrightarrow> length (drain n q) = length q"
proof (induction n arbitrary: q)
  case 0
  then show ?case by simp
next
  case (Suc n)
  then obtain x xs where q: "q = x # xs" by (cases q) auto
  obtain m q1 where g: "pq_get q = Some (m, q1)"
    using q by (simp add: pq_get_def)
  note s = pq_get_Some [OF g]
  show ?case
    using Suc.IH [of q1] Suc.prems s(3) by (simp add: g)
qed

lemma delivery_order_length: "length (delivery_order q) = length q"
  by (simp add: delivery_order_def drain_length)

lemma keys_remove1_subset: "key_of ` set (remove1 m q) \<subseteq> key_of ` set q"
  by (rule image_mono) (rule set_remove1_subset)

lemma distinct_keys_remove1: "distinct_keys q \<Longrightarrow> distinct_keys (remove1 m q)"
  unfolding distinct_keys_def
proof (induction q)
  case Nil
  then show ?case by simp
next
  case (Cons a q)
  show ?case
  proof (cases "m = a")
    case True
    with Cons.prems show ?thesis by simp
  next
    case False
    have "key_of a \<notin> key_of ` set (remove1 m q)"
      using Cons.prems keys_remove1_subset [of m q] by auto
    with Cons False show ?thesis by simp
  qed
qed

lemma distinct_keys_notin:
  "distinct_keys q \<Longrightarrow> m \<in> set q \<Longrightarrow> y \<in> set (remove1 m q) \<Longrightarrow> key_of y \<noteq> key_of m"
  unfolding distinct_keys_def
proof (induction q)
  case Nil
  then show ?case by simp
next
  case (Cons a q)
  show ?case
  proof (cases "m = a")
    case True
    with Cons.prems have "y \<in> set q" "key_of a \<notin> key_of ` set q" by simp_all
    then have "key_of y \<noteq> key_of a" by (metis imageI)
    with True show ?thesis by simp
  next
    case False
    with Cons.prems have m: "m \<in> set q" by simp
    from Cons.prems(3) False have "y = a \<or> y \<in> set (remove1 m q)" by simp
    then show ?thesis
    proof
      assume ya: "y = a"
      from Cons.prems(1) have "key_of a \<notin> key_of ` set q" by simp
      with m have "key_of a \<noteq> key_of m" by (metis imageI)
      with ya show ?thesis by simp
    next
      assume "y \<in> set (remove1 m q)"
      with Cons.IH Cons.prems(1) m show ?thesis by simp
    qed
  qed
qed

lemma entry_less_total: "key_of a \<noteq> key_of b \<Longrightarrow> \<not> entry_less a b \<Longrightarrow> entry_less b a"
  by (auto simp: entry_less_def key_of_def)

lemma drain_sorted:
  "n = length q \<Longrightarrow> distinct_keys q \<Longrightarrow> sorted_wrt entry_less (drain n q)"
proof (induction n arbitrary: q)
  case 0
  then show ?case by simp
next
  case (Suc n)
  then obtain x xs where q: "q = x # xs" by (cases q) auto
  obtain m q1 where g: "pq_get q = Some (m, q1)"
    using q by (simp add: pq_get_def)
  note s = pq_get_Some [OF g]
  have len: "n = length q1" using Suc.prems(1) s(3) by simp
  have dk: "distinct_keys q1" using Suc.prems(2) s(2) by (simp add: distinct_keys_remove1)
  have "entry_less m y" if "y \<in> set (drain n q1)" for y
  proof -
    from that have y: "y \<in> set q1" by (simp add: drain_set [OF len])
    then have "y \<in> set q" using s(2) set_remove1_subset [of m q] by blast
    then have "\<not> entry_less y m" using s(4) by blast
    moreover have "key_of y \<noteq> key_of m"
      using distinct_keys_notin [OF Suc.prems(2) s(1)] y s(2) by simp
    ultimately show ?thesis by (rule entry_less_total [rotated])
  qed
  then show ?case
    using Suc.IH [OF len dk] by (simp add: g)
qed

lemma delivery_order_sorted: "distinct_keys q \<Longrightarrow> sorted_wrt entry_less (delivery_order q)"
  by (simp add: delivery_order_def drain_sorted)

lemma entry_less_asym: "entry_less a b \<Longrightarrow> \<not> entry_less b a"
  by (auto simp: entry_less_def)

lemma sorted_entries_unique:
  "sorted_wrt entry_less xs \<Longrightarrow> sorted_wrt entry_less ys \<Longrightarrow> set xs = set ys \<Longrightarrow> xs = ys"
proof (induction xs arbitrary: ys)
  case Nil
  then show ?case by simp
next
  case (Cons x xs)
  then obtain y ys' where ys: "ys = y # ys'" by (cases ys) auto
  have irr: "\<not> entry_less a a" for a by (simp add: entry_less_def)
  have xy: "x = y"
  proof (rule ccontr)
    assume ne: "x \<noteq> y"
    have "x \<in> set ys'" using Cons.prems(3) ys ne by auto
    then have 1: "entry_less y x" using Cons.prems(2) ys by simp
    have "y \<in> set xs" using Cons.prems(3) ys ne by auto
    then have 2: "entry_less x y" using Cons.prems(1) by simp
    from 1 2 show False by (simp add: entry_less_asym)
  qed
  have nx: "x \<notin> set xs"
  proof
    assume "x \<in> set xs"
    with Cons.prems(1) have "entry_less x x" by simp
    with irr show False by blast
  qed
  have ny: "y \<notin> set ys'"
  proof
    assume "y \<in> set ys'"
    with Cons.prems(2) ys have "entry_less y y" by simp
    with irr show False by blast
  qed
  have "insert x (set xs) = insert x (set ys')"
    using Cons.prems(3) ys xy by simp
  with nx ny xy have "set xs = set ys'"
    by (metis insert_ident)
  then have "xs = ys'"
    using Cons.IH [of ys'] Cons.prems(1,2) ys by simp
  with xy ys show ?case by simp
qed

lemma delivery_order_independent:
  "distinct_keys q \<Longrightarrow> distinct_keys q' \<Longrightarrow> set q' = set q \<Longrightarrow> delivery_order q' = delivery_order q"
  by (rule sorted_entries_unique) (simp_all add: delivery_order_sorted delivery_order_set)

text \<open>
  Claim C2, as the code has it. Timestamped frames that are in the scheduled queue
  together, none being put while the task takes them, are pushed downstream in strictly
  ascending order of (timestamp, id), each once (a frame whose handling raises is logged
  instead), and the task then waits for more. The order depends on the set of entries
  only, not on the order in which they arrived.
\<close>

theorem scheduled_delivery_order:
  assumes "sink_clock_queue st = Some q" and "distinct_keys q"
    and "\<forall>e \<in> set q. \<not> is_end e"
    and "\<forall>t \<in> set ts. quiet t" and "length q \<le> length ts"
    and "\<forall>e \<in> set q. \<forall>err. raises h (snd (snd e)) = Some err \<longrightarrow> is_exception err"
  shows "pushed (fst (sink_clock_task_handler h ts st)) = pushed st @ delivered h (delivery_order q)
     \<and> snd (sink_clock_task_handler h ts st) = Running
     \<and> set (delivery_order q) = set q \<and> length (delivery_order q) = length q
     \<and> sorted_wrt entry_less (delivery_order q)
     \<and> (\<forall>q'. distinct_keys q' \<and> set q' = set q \<longrightarrow> delivery_order q' = delivery_order q)"
proof -
  have ne: "\<forall>e \<in> set (delivery_order q). \<not> is_end e"
    using assms(3) by (simp add: delivery_order_set)
  then have tw: "takeWhile (\<lambda>e. \<not> is_end e) (delivery_order q) = delivery_order q"
    by (simp add: takeWhile_eq_all_conv)
  have tk: "take (length ts) (delivery_order q) = delivery_order q"
    using assms(5) by (simp add: delivery_order_length)
  from clock_run [OF assms(1,4,6)] have r:
    "pushed (fst (sink_clock_task_handler h ts st)) = pushed st @ delivered h (delivery_order q)"
    "snd (sink_clock_task_handler h ts st) = Running"
    by (simp_all add: tw tk)
  have i: "\<forall>q'. distinct_keys q' \<and> set q' = set q \<longrightarrow> delivery_order q' = delivery_order q"
    using assms(2) by (blast intro: delivery_order_independent)
  from r delivery_order_set [of q] delivery_order_length [of q]
    delivery_order_sorted [OF assms(2)] i
  show ?thesis by (intro conjI)
qed

text \<open>
  The frames with timestamps 100, 50 and 70 arrive in that order, with increasing
  identifiers; the router puts them on the scheduled queue and the task pushes 50, 70,
  100.
\<close>

theorem scheduled_delivery_order_witness:
  "process_frame default_hooks (pts_frame 1 100 DataFrame) DOWNSTREAM demo_started
     = Some (Inr (demo_started\<lparr>sink_clock_queue := Some [(100, 1, pts_frame 1 100 DataFrame)]\<rparr>))
   \<and> process_frame default_hooks (pts_frame 2 50 DataFrame) DOWNSTREAM
       (demo_started\<lparr>sink_clock_queue := Some [(100, 1, pts_frame 1 100 DataFrame)]\<rparr>)
     = Some (Inr (demo_started\<lparr>sink_clock_queue :=
          Some [(100, 1, pts_frame 1 100 DataFrame), (50, 2, pts_frame 2 50 DataFrame)]\<rparr>))
   \<and> process_frame default_hooks (pts_frame 3 70 DataFrame) DOWNSTREAM
       (demo_started\<lparr>sink_clock_queue :=
          Some [(100, 1, pts_frame 1 100 DataFrame), (50, 2, pts_frame 2 50 DataFrame)]\<rparr>)
     = Some (Inr (demo_started\<lparr>sink_clock_queue :=
          Some [(100, 1, pts_frame 1 100 DataFrame), (50, 2, pts_frame 2 50 DataFrame),
                (70, 3, pts_frame 3 70 DataFrame)]\<rparr>))
   \<and> distinct_keys [(100, 1, pts_frame 1 100 DataFrame), (50, 2, pts_frame 2 50 DataFrame),
                (70, 3, pts_frame 3 70 DataFrame)]
   \<and> list_all (\<lambda>e. \<not> is_end e) [(100, 1, pts_frame 1 100 DataFrame),
                (50, 2, pts_frame 2 50 DataFrame), (70, 3, pts_frame 3 70 DataFrame)]
   \<and> list_all quiet [tick_at 200, tick_at 200, tick_at 200]
   \<and> pushed (fst (sink_clock_task_handler default_hooks [tick_at 200, tick_at 200, tick_at 200]
         (demo_started\<lparr>sink_clock_queue :=
            Some [(100, 1, pts_frame 1 100 DataFrame), (50, 2, pts_frame 2 50 DataFrame),
                  (70, 3, pts_frame 3 70 DataFrame)]\<rparr>)))
     = [(pts_frame 2 50 DataFrame, DOWNSTREAM), (pts_frame 3 70 DataFrame, DOWNSTREAM),
        (pts_frame 1 100 DataFrame, DOWNSTREAM)]
   \<and> delivery_order [(70, 3, pts_frame 3 70 DataFrame), (100, 1, pts_frame 1 100 DataFrame),
                (50, 2, pts_frame 2 50 DataFrame)]
     = [(50, 2, pts_frame 2 50 DataFrame), (70, 3, pts_frame 3 70 DataFrame),
        (100, 1, pts_frame 1 100 DataFrame)]"
proof -
  let ?q = "[(100::int, 1::int, pts_frame 1 100 DataFrame), (50, 2, pts_frame 2 50 DataFrame),
                (70, 3, pts_frame 3 70 DataFrame)]"
  let ?q' = "[(70::int, 3::int, pts_frame 3 70 DataFrame), (100, 1, pts_frame 1 100 DataFrame),
                (50, 2, pts_frame 2 50 DataFrame)]"
  let ?st = "demo_started\<lparr>sink_clock_queue := Some ?q\<rparr>"
  have p1: "process_frame default_hooks (pts_frame 1 100 DataFrame) DOWNSTREAM demo_started
     = Some (Inr (demo_started\<lparr>sink_clock_queue := Some [(100, 1, pts_frame 1 100 DataFrame)]\<rparr>))"
    by (simp add: process_frame_def pts_frame_def is_system_def is_audio_def is_image_def
        demo_started_def init_def)
  have p2: "process_frame default_hooks (pts_frame 2 50 DataFrame) DOWNSTREAM
       (demo_started\<lparr>sink_clock_queue := Some [(100, 1, pts_frame 1 100 DataFrame)]\<rparr>)
     = Some (Inr (demo_started\<lparr>sink_clock_queue :=
          Some [(100, 1, pts_frame 1 100 DataFrame), (50, 2, pts_frame 2 50 DataFrame)]\<rparr>))"
    by (simp add: process_frame_def pts_frame_def is_system_def is_audio_def is_image_def)
  have p3: "process_frame default_hooks (pts_frame 3 70 DataFrame) DOWNSTREAM
       (demo_started\<lparr>sink_clock_queue :=
          Some [(100, 1, pts_frame 1 100 DataFrame), (50, 2, pts_frame 2 50 DataFrame)]\<rparr>)
     = Some (Inr ?st)"
    by (simp add: process_frame_def pts_frame_def is_system_def is_audio_def is_image_def)
  have a: "sink_clock_queue ?st = Some ?q" by simp
  have b: "distinct_keys ?q" "distinct_keys ?q'"
    by (simp_all add: distinct_keys_def key_of_def)
  have c: "\<forall>e \<in> set ?q. \<not> is_end e"
    by (simp add: is_end_def pts_frame_def)
  have d: "\<forall>t \<in> set [tick_at 200, tick_at 200, tick_at 200]. quiet t"
    by (simp add: quiet_def tick_at_def)
  have e: "length ?q \<le> length [tick_at 200, tick_at 200, tick_at 200]" by simp
  have f: "\<forall>e \<in> set ?q. \<forall>err. raises default_hooks (snd (snd e)) = Some err \<longrightarrow> is_exception err"
    by (simp add: raises_def default_hooks_def)
  note t = scheduled_delivery_order [OF a b(1) c d e f]
  have o: "delivery_order ?q = [(50, 2, pts_frame 2 50 DataFrame), (70, 3, pts_frame 3 70 DataFrame),
        (100, 1, pts_frame 1 100 DataFrame)]"
    by (simp add: delivery_order_def pq_get_def entry_less_def pts_frame_def)
  have o': "delivery_order ?q' = [(50, 2, pts_frame 2 50 DataFrame), (70, 3, pts_frame 3 70 DataFrame),
        (100, 1, pts_frame 1 100 DataFrame)]"
    by (simp add: delivery_order_def pq_get_def entry_less_def pts_frame_def)
  have dl: "delivered default_hooks [(50, 2, pts_frame 2 50 DataFrame), (70, 3, pts_frame 3 70 DataFrame),
        (100, 1, pts_frame 1 100 DataFrame)]
     = [(pts_frame 2 50 DataFrame, DOWNSTREAM), (pts_frame 3 70 DataFrame, DOWNSTREAM),
        (pts_frame 1 100 DataFrame, DOWNSTREAM)]"
    by (simp add: delivered_def raises_def default_hooks_def)
  have ps: "pushed ?st = []" by (simp add: demo_started_def init_def)
  have r: "pushed (fst (sink_clock_task_handler default_hooks [tick_at 200, tick_at 200, tick_at 200] ?st))
     = [(pts_frame 2 50 DataFrame, DOWNSTREAM), (pts_frame 3 70 DataFrame, DOWNSTREAM),
        (pts_frame 1 100 DataFrame, DOWNSTREAM)]"
    using t [THEN conjunct1] by (simp only: o dl ps append_Nil)
  have c': "list_all (\<lambda>e. \<not> is_end e) ?q"
    by (simp add: is_end_def pts_frame_def)
  have d': "list_all quiet [tick_at 200, tick_at 200, tick_at 200]"
    by (simp add: quiet_def tick_at_def)
  from p1 p2 p3 b(1) c' d' r o' show ?thesis
    by (intro conjI)
qed

text \<open>
  The order is not ascending when a frame arrives after the task has taken one that is
  due later: the frame stamped 100 arrives at time 0 and the task takes it and sleeps
  until it is due; the frame stamped 50 arrives meanwhile; the task pushes 100, then 50.
\<close>

theorem scheduled_delivery_follows_arrival:
  "process_frame default_hooks (pts_frame 1 100 DataFrame) DOWNSTREAM demo_started
     = Some (Inr (demo_started\<lparr>sink_clock_queue := Some [(100, 1, pts_frame 1 100 DataFrame)]\<rparr>))
   \<and> sink_clock_iteration default_hooks (tick_at 0)
       (demo_started\<lparr>sink_clock_queue := Some [(100, 1, pts_frame 1 100 DataFrame)]\<rparr>)
     = (demo_started\<lparr>sink_clock_queue := Some [], clock_sleeps := [100],
          pushed := [(pts_frame 1 100 DataFrame, DOWNSTREAM)]\<rparr>, Running)
   \<and> process_frame default_hooks (pts_frame 2 50 DataFrame) DOWNSTREAM
       (demo_started\<lparr>sink_clock_queue := Some [], clock_sleeps := [100],
          pushed := [(pts_frame 1 100 DataFrame, DOWNSTREAM)]\<rparr>)
     = Some (Inr (demo_started\<lparr>sink_clock_queue := Some [(50, 2, pts_frame 2 50 DataFrame)],
          clock_sleeps := [100], pushed := [(pts_frame 1 100 DataFrame, DOWNSTREAM)]\<rparr>))
   \<and> sink_clock_iteration default_hooks (tick_at 100)
       (demo_started\<lparr>sink_clock_queue := Some [(50, 2, pts_frame 2 50 DataFrame)],
          clock_sleeps := [100], pushed := [(pts_frame 1 100 DataFrame, DOWNSTREAM)]\<rparr>)
     = (demo_started\<lparr>sink_clock_queue := Some [], clock_sleeps := [100],
          pushed := [(pts_frame 1 100 DataFrame, DOWNSTREAM), (pts_frame 2 50 DataFrame, DOWNSTREAM)]\<rparr>,
        Running)
   \<and> entry_less (50, 2, pts_frame 2 50 DataFrame) (100, 1, pts_frame 1 100 DataFrame)"
proof -
  have p1: "process_frame default_hooks (pts_frame 1 100 DataFrame) DOWNSTREAM demo_started
     = Some (Inr (demo_started\<lparr>sink_clock_queue := Some [(100, 1, pts_frame 1 100 DataFrame)]\<rparr>))"
    by (simp add: process_frame_def pts_frame_def is_system_def is_audio_def is_image_def
        demo_started_def init_def)
  have i1: "sink_clock_iteration default_hooks (tick_at 0)
       (demo_started\<lparr>sink_clock_queue := Some [(100, 1, pts_frame 1 100 DataFrame)]\<rparr>)
     = (demo_started\<lparr>sink_clock_queue := Some [], clock_sleeps := [100],
          pushed := [(pts_frame 1 100 DataFrame, DOWNSTREAM)]\<rparr>, Running)"
    by (simp add: sink_clock_iteration_def pq_get_def tick_at_def pts_frame_def
        sink_frame_handler_def push_frame_def demo_started_def init_def)
  have p2: "process_frame default_hooks (pts_frame 2 50 DataFrame) DOWNSTREAM
       (demo_started\<lparr>sink_clock_queue := Some [], clock_sleeps := [100],
          pushed := [(pts_frame 1 100 DataFrame, DOWNSTREAM)]\<rparr>)
     = Some (Inr (demo_started\<lparr>sink_clock_queue := Some [(50, 2, pts_frame 2 50 DataFrame)],
          clock_sleeps := [100], pushed := [(pts_frame 1 100 DataFrame, DOWNSTREAM)]\<rparr>))"
    by (simp add: process_frame_def pts_frame_def is_system_def is_audio_def is_image_def)
  have i2: "sink_clock_iteration default_hooks (tick_at 100)
       (demo_started\<lparr>sink_clock_queue := Some [(50, 2, pts_frame 2 50 DataFrame)],
          clock_sleeps := [100], pushed := [(pts_frame 1 100 DataFrame, DOWNSTREAM)]\<rparr>)
     = (demo_started\<lparr>sink_clock_queue := Some [], clock_sleeps := [100],
          pushed := [(pts_frame 1 100 DataFrame, DOWNSTREAM), (pts_frame 2 50 DataFrame, DOWNSTREAM)]\<rparr>,
        Running)"
    by (simp add: sink_clock_iteration_def pq_get_def tick_at_def pts_frame_def
        sink_frame_handler_def push_frame_def demo_started_def init_def)
  have l: "entry_less (50, 2, pts_frame 2 50 DataFrame) (100, 1, pts_frame 1 100 DataFrame)"
    by (simp add: entry_less_def)
  from p1 i1 p2 i2 l show ?thesis by (intro conjI)
qed

end
